theory Spec2Isabelle
  imports Complex_Main "HOL-Library.Char_ord" "HOL-Library.List_Lexorder"
begin

section \<open>Metadata store (database\_schema.py)\<close>

text \<open>
  The SQLite tables are lists of rows in rowid (insertion) order. Only the tables and
  columns that the modelled functions read or write are kept: \<open>files\<close>,
  \<open>replicas\<close> and \<open>storage_nodes\<close>. Status columns are TEXT in the schema and stay
  strings here. A timestamp is a number of microseconds (the resolution of Python's
  \<open>datetime\<close>); \<open>total_seconds() < 30\<close> is then a comparison with \<open>30 * 10^6\<close>.
  Foreign keys are not enforced: the code never issues \<open>PRAGMA foreign_keys = ON\<close>,
  so an insert into \<open>replicas\<close> never fails and \<open>ON DELETE CASCADE\<close> never fires.
\<close>

type_synonym timestamp = int

definition seconds :: "int \<Rightarrow> int" where
  "seconds n = n * 1000000"

record file_row =
  file_id :: string
  filename :: string
  file_size :: int
  checksum :: "string option"
  upload_timestamp :: timestamp
  replication_factor :: int

record replica_row =
  replica_id :: nat
  r_file_id :: string
  node_id :: string
  node_address :: string
  status :: string
  last_verified :: "timestamp option"

record node_row =
  n_node_id :: string
  n_node_address :: string
  n_status :: string
  available_space :: int
  total_files :: int
  last_heartbeat :: timestamp
  n_created_at :: timestamp

record database =
  files :: "file_row list"
  replicas :: "replica_row list"
  storage_nodes :: "node_row list"
  replica_seq :: nat

text \<open>\<open>replica_seq\<close> is the largest id that AUTOINCREMENT has handed out so far.\<close>

definition get_replicas :: "database \<Rightarrow> string \<Rightarrow> replica_row list" where
  "get_replicas db fid = filter (\<lambda>r. r_file_id r = fid) (replicas db)"

text \<open>\<open>get_file\<close>: the file row joined with its replicas, or \<open>None\<close>.\<close>

definition get_file :: "database \<Rightarrow> string \<Rightarrow> (file_row \<times> replica_row list) option" where
  "get_file db fid =
     (case find (\<lambda>f. file_id f = fid) (files db) of
        None \<Rightarrow> None
      | Some f \<Rightarrow> Some (f, filter (\<lambda>r. r_file_id r = fid) (replicas db)))"

text \<open>\<open>UPDATE files SET checksum = ? WHERE file_id = ?\<close>: no condition on the old value.\<close>

definition update_file_checksum :: "string \<Rightarrow> string option \<Rightarrow> database \<Rightarrow> database" where
  "update_file_checksum fid c db =
     db\<lparr>files := map (\<lambda>f. if file_id f = fid then f\<lparr>checksum := c\<rparr> else f) (files db)\<rparr>"

text \<open>
  \<open>delete_file\<close> runs two DELETE statements on one cursor and returns
  \<open>cursor.rowcount > 0\<close>; \<open>rowcount\<close> is that of the last statement, the one on
  \<open>replicas\<close>.
\<close>

definition delete_file :: "string \<Rightarrow> database \<Rightarrow> database \<times> bool" where
  "delete_file fid db =
     (let rowcount = length (filter (\<lambda>r. r_file_id r = fid) (replicas db))
      in (db\<lparr>files := filter (\<lambda>f. file_id f \<noteq> fid) (files db),
             replicas := filter (\<lambda>r. r_file_id r \<noteq> fid) (replicas db)\<rparr>,
          rowcount > 0))"

text \<open>\<open>add_replica\<close>: a plain INSERT; returns \<open>lastrowid\<close>.\<close>

definition add_replica ::
  "string \<Rightarrow> string \<Rightarrow> string \<Rightarrow> string \<Rightarrow> database \<Rightarrow> database \<times> nat" where
  "add_replica fid nid addr st db =
     (let rowid = Suc (replica_seq db)
      in (db\<lparr>replicas := replicas db @
               [\<lparr>replica_id = rowid, r_file_id = fid, node_id = nid, node_address = addr,
                 status = st, last_verified = None\<rparr>],
             replica_seq := rowid\<rparr>,
          rowid))"

text \<open>
  \<open>update_replica_status\<close> stamps \<open>last_verified\<close> with the current time on every row
  of the pair, whatever the new status.
\<close>

definition update_replica_status ::
  "timestamp \<Rightarrow> string \<Rightarrow> string \<Rightarrow> string \<Rightarrow> database \<Rightarrow> database" where
  "update_replica_status now fid nid st db =
     db\<lparr>replicas := map (\<lambda>r. if r_file_id r = fid \<and> node_id r = nid
                               then r\<lparr>status := st, last_verified := Some now\<rparr> else r)
                        (replicas db)\<rparr>"

definition mark_node_inactive :: "string \<Rightarrow> database \<Rightarrow> database" where
  "mark_node_inactive nid db =
     db\<lparr>storage_nodes := map (\<lambda>n. if n_node_id n = nid then n\<lparr>n_status := ''inactive''\<rparr> else n)
                             (storage_nodes db)\<rparr>"


text \<open>
  \<open>get_active_nodes\<close>: the rows with status \<open>active\<close>, largest \<open>available_space\<close>
  first; a row whose heartbeat is \<open>timeout_seconds\<close> old or older is not returned and
  is marked inactive on the way.
\<close>

fun get_active_nodes_loop ::
  "timestamp \<Rightarrow> int \<Rightarrow> node_row list \<Rightarrow> database \<Rightarrow> database \<times> node_row list" where
  "get_active_nodes_loop now timeout_seconds [] db = (db, [])"
| "get_active_nodes_loop now timeout_seconds (n # rows) db =
     (if now - last_heartbeat n < seconds timeout_seconds
      then (let (db', nodes) = get_active_nodes_loop now timeout_seconds rows db
            in (db', n # nodes))
      else get_active_nodes_loop now timeout_seconds rows (mark_node_inactive (n_node_id n) db))"

definition get_active_nodes :: "timestamp \<Rightarrow> int \<Rightarrow> database \<Rightarrow> database \<times> node_row list" where
  "get_active_nodes now timeout_seconds db =
     get_active_nodes_loop now timeout_seconds
       (sort_key (\<lambda>n. - available_space n)
          (filter (\<lambda>n. n_status n = ''active'') (storage_nodes db)))
       db"

text \<open>
  \<open>list_files\<close>: one entry per file, newest upload first, cut to the page; each entry
  carries \<open>replica_count\<close> and \<open>active_replicas\<close> (0 for a file without replicas, by
  the \<open>ELSE 0\<close> of the aggregate). The \<open>GROUP BY f.file_id\<close> walks the primary-key
  index, so files of equal \<open>upload_timestamp\<close> come in \<open>file_id\<close> order (bytewise,
  the order of \<open>string\<close> here). A negative LIMIT is no limit, a negative OFFSET is 0,
  and a bound outside the 64-bit range makes the driver raise (\<open>None\<close>). Only the
  \<open>files\<close> key of the result is modelled.
\<close>

record file_entry =
  e_file :: file_row
  replica_count :: nat
  active_replicas :: nat

definition file_rows_listed :: "database \<Rightarrow> file_row list" where
  "file_rows_listed db = sort_key (\<lambda>f. - upload_timestamp f) (sort_key file_id (files db))"

definition list_files :: "int \<Rightarrow> int \<Rightarrow> database \<Rightarrow> file_entry list option" where
  "list_files limit offset db =
     (if limit < - (2 ^ 63) \<or> 2 ^ 63 \<le> limit \<or> offset < - (2 ^ 63) \<or> 2 ^ 63 \<le> offset
      then None
      else
        let rows = map (\<lambda>f. \<lparr>e_file = f,
                     replica_count = length (filter (\<lambda>r. r_file_id r = file_id f) (replicas db)),
                     active_replicas = length (filter (\<lambda>r. r_file_id r = file_id f \<and> status r = ''active'')
                                                 (replicas db))\<rparr>)
                   (file_rows_listed db);
            page = drop (nat offset) rows
        in Some (if limit < 0 then page else take (nat limit) page))"

section \<open>Upload confirmation (naming\_service.py)\<close>

text \<open>
  \<open>upload_confirm\<close> answers 400 when a field is missing or empty; otherwise it makes
  the replica active and writes the checksum only where the file has none yet
  (\<open>not file_info['checksum']\<close>: NULL or the empty string). The result is the new
  database and the HTTP status.
\<close>

definition upload_confirm ::
  "timestamp \<Rightarrow> string \<Rightarrow> string \<Rightarrow> string \<Rightarrow> database \<Rightarrow> database \<times> int" where
  "upload_confirm now fid nid c db =
     (if fid = [] \<or> nid = [] \<or> c = [] then (db, 400)
      else
        let db1 = update_replica_status now fid nid ''active'' db
        in (case get_file db1 fid of
              None \<Rightarrow> (db1, 200)
            | Some (f, rs) \<Rightarrow>
                if checksum f = None \<or> checksum f = Some []
                then (update_file_checksum fid (Some c) db1, 200)
                else (db1, 200)))"

section \<open>Properties of the metadata store\<close>

definition pair_rows :: "database \<Rightarrow> string \<Rightarrow> string \<Rightarrow> replica_row list" where
  "pair_rows db fid nid = filter (\<lambda>r. r_file_id r = fid \<and> node_id r = nid) (replicas db)"

definition stored_checksums :: "database \<Rightarrow> string \<Rightarrow> string option list" where
  "stored_checksums db fid = map checksum (filter (\<lambda>f. file_id f = fid) (files db))"

definition checksum_unset :: "database \<Rightarrow> string \<Rightarrow> bool" where
  "checksum_unset db fid =
     (case find (\<lambda>f. file_id f = fid) (files db) of
        None \<Rightarrow> False
      | Some f \<Rightarrow> checksum f = None \<or> checksum f = Some [])"

definition db_example :: database where
  "db_example =
     \<lparr>files = [\<lparr>file_id = ''f1'', filename = ''a.bin'', file_size = 10, checksum = Some ''aa'',
                upload_timestamp = 0, replication_factor = 2\<rparr>],
      replicas = [], storage_nodes = [], replica_seq = 0\<rparr>"

definition db_fresh :: database where
  "db_fresh =
     \<lparr>files = [\<lparr>file_id = ''f1'', filename = ''a.bin'', file_size = 10, checksum = None,
                upload_timestamp = 0, replication_factor = 2\<rparr>],
      replicas = [\<lparr>replica_id = 1, r_file_id = ''f1'', node_id = ''n1'', node_address = ''http://n1'',
                   status = ''pending'', last_verified = None\<rparr>],
      storage_nodes = [], replica_seq = 1\<rparr>"

lemma pair_rows_add_replica:
  "pair_rows (fst (add_replica fid nid addr st db)) fid nid =
     pair_rows db fid nid @
       [\<lparr>replica_id = Suc (replica_seq db), r_file_id = fid, node_id = nid, node_address = addr,
         status = st, last_verified = None\<rparr>]"
  by (simp add: pair_rows_def add_replica_def Let_def)

text \<open>
  C2 (as stated, refuted): after two calls of \<open>add_replica\<close> with the same
  \<open>(file_id, node_id)\<close> on a store without a row for the pair, two rows exist for it,
  not one.
\<close>

theorem add_replica_twice_counterexample:
  "length (pair_rows (fst (add_replica ''f1'' ''n1'' ''http://n1'' ''active''
                        (fst (add_replica ''f1'' ''n1'' ''http://n1'' ''active'' db_example))))
                     ''f1'' ''n1'') = 2"
  by (simp add: pair_rows_add_replica) (simp add: pair_rows_def db_example_def)

text \<open>
  C2 (amended): \<open>add_replica\<close> never looks for an existing row. Every call appends one
  row for the pair under a fresh id, so two calls with the same \<open>(file_id, node_id)\<close>
  leave two more rows for that pair than before, with different ids, the second id
  returned being the first plus one.
\<close>

theorem add_replica_twice_appends:
  "length (pair_rows (fst (add_replica fid nid a2 s2 (fst (add_replica fid nid a1 s1 db)))) fid nid)
     = length (pair_rows db fid nid) + 2
   \<and> snd (add_replica fid nid a2 s2 (fst (add_replica fid nid a1 s1 db)))
     = Suc (snd (add_replica fid nid a1 s1 db))"
  by (simp add: pair_rows_add_replica) (simp add: add_replica_def Let_def)

text \<open>
  C3 (as stated, refuted): the file \<open>f1\<close> has the checksum \<open>aa\<close>;
  \<open>update_file_checksum\<close> with \<open>bb\<close> replaces it.
\<close>

theorem update_file_checksum_counterexample:
  "stored_checksums db_example ''f1'' = [Some ''aa''] \<and>
   stored_checksums (update_file_checksum ''f1'' (Some ''bb'') db_example) ''f1'' = [Some ''bb'']"
  by (simp add: stored_checksums_def update_file_checksum_def db_example_def)

lemma find_file_id:
  "find (\<lambda>f. file_id f = fid) fs = Some f \<Longrightarrow> f \<in> set fs \<and> file_id f = fid"
  by (induction fs) (auto split: if_splits)

lemma in_set_mapD: "g \<in> set (map F fs) \<Longrightarrow> \<exists>f\<in>set fs. g = F f"
  by auto

lemma files_update_file_checksum:
  "files (update_file_checksum fid c db) =
     map (\<lambda>f. if file_id f = fid then f\<lparr>checksum := c\<rparr> else f) (files db)"
  unfolding update_file_checksum_def by simp

lemma checksum_after_update:
  assumes "g \<in> set (files (update_file_checksum fid c db))" and "file_id g = fid"
  shows "checksum g = c"
proof -
  from assms(1) have "\<exists>f\<in>set (files db). g = (if file_id f = fid then f\<lparr>checksum := c\<rparr> else f)"
    unfolding files_update_file_checksum by (rule in_set_mapD)
  then obtain f where
    gf: "g = (if file_id f = fid then f\<lparr>checksum := c\<rparr> else f)" ..
  show ?thesis
  proof (cases "file_id f = fid")
    case True
    with gf have "g = f\<lparr>checksum := c\<rparr>" by simp
    then show ?thesis by simp
  next
    case False
    with gf have "g = f" by simp
    with assms(2) False show ?thesis by simp
  qed
qed

lemma filter_other_files:
  "filter (\<lambda>f. file_id f \<noteq> fid) (map (\<lambda>f. if file_id f = fid then f\<lparr>checksum := c\<rparr> else f) fs)
     = filter (\<lambda>f. file_id f \<noteq> fid) fs"
  by (induction fs) auto

lemma files_update_replica_status: "files (update_replica_status now fid nid st db) = files db"
  by (simp add: update_replica_status_def)

lemma get_file_SomeD:
  "get_file db fid = Some (f, rs) \<Longrightarrow> find (\<lambda>f. file_id f = fid) (files db) = Some f"
  unfolding get_file_def by (cases "find (\<lambda>f. file_id f = fid) (files db)") simp_all

lemma upload_confirm_keeps_checksum:
  assumes set: "\<forall>f \<in> set (files db). file_id f = fid \<longrightarrow> checksum f \<noteq> None \<and> checksum f \<noteq> Some []"
  shows "files (fst (upload_confirm now fid nid c' db)) = files db"
proof (cases "get_file (update_replica_status now fid nid ''active'' db) fid")
  case None
  then show ?thesis by (simp add: upload_confirm_def Let_def files_update_replica_status)
next
  case (Some p)
  obtain f rs where p: "p = (f, rs)" by (cases p)
  from Some p have "find (\<lambda>f. file_id f = fid) (files db) = Some f"
    using get_file_SomeD [of "update_replica_status now fid nid ''active'' db" fid f rs]
    by (simp add: files_update_replica_status)
  then have "f \<in> set (files db)" "file_id f = fid"
    using find_file_id by blast+
  with set have c: "checksum f \<noteq> None" "checksum f \<noteq> Some []" by blast+
  then obtain y where y: "checksum f = Some y" "y \<noteq> []" by (cases "checksum f") auto
  show ?thesis
    unfolding upload_confirm_def Let_def Some p using y
    by (simp add: files_update_replica_status)
qed

lemma stored_checksums_map:
  "map checksum (filter (\<lambda>f. file_id f = fid)
      (map (\<lambda>f. if file_id f = fid then f\<lparr>checksum := c\<rparr> else f) fs))
     = map (\<lambda>_. c) (map checksum (filter (\<lambda>f. file_id f = fid) fs))"
  by (induction fs) simp_all

lemma stored_checksums_update_file_checksum:
  "stored_checksums (update_file_checksum fid c db) fid = map (\<lambda>_. c) (stored_checksums db fid)"
  unfolding stored_checksums_def files_update_file_checksum by (rule stored_checksums_map)

lemma length_files_update_file_checksum:
  "length (files (update_file_checksum fid c db)) = length (files db)"
  unfolding files_update_file_checksum by simp

lemma files_update_checksum_after_status:
  "files (update_file_checksum fid c (update_replica_status now fid' nid st db))
     = files (update_file_checksum fid c db)"
  unfolding files_update_file_checksum files_update_replica_status by (rule refl)

lemma get_file_None_iff:
  "get_file db fid = None \<longleftrightarrow> find (\<lambda>f. file_id f = fid) (files db) = None"
  unfolding get_file_def by (cases "find (\<lambda>f. file_id f = fid) (files db)") simp_all

lemma upload_confirm_writes_unset:
  assumes ne: "fid \<noteq> []" "nid \<noteq> []" "c' \<noteq> []" and unset: "checksum_unset db fid"
  shows "files (fst (upload_confirm now fid nid c' db)) = files (update_file_checksum fid (Some c') db)"
proof -
  let ?db1 = "update_replica_status now fid nid ''active'' db"
  from unset obtain f where f: "find (\<lambda>f. file_id f = fid) (files db) = Some f"
      and u: "checksum f = None \<or> checksum f = Some []"
    unfolding checksum_unset_def by (cases "find (\<lambda>f. file_id f = fid) (files db)") simp_all
  have "get_file ?db1 fid = Some (f, filter (\<lambda>r. r_file_id r = fid) (replicas ?db1))"
    unfolding get_file_def files_update_replica_status f by simp
  then show ?thesis
    unfolding upload_confirm_def Let_def using ne u
    by (simp add: files_update_checksum_after_status)
qed

text \<open>
  C3 (amended): \<open>update_file_checksum\<close> overwrites: the file's row stays, its stored
  checksum becomes the new one whatever it was before, and the rows of other files are
  as they were. The first-wins rule lives in its caller \<open>upload_confirm\<close>: with all
  three fields present it writes the reported checksum when the file has none (NULL or
  empty), and it leaves the \<open>files\<close> table unchanged when the file has a non-empty
  checksum.
\<close>

theorem update_file_checksum_overwrites:
  "stored_checksums (update_file_checksum fid c db) fid = map (\<lambda>_. c) (stored_checksums db fid)
   \<and> length (files (update_file_checksum fid c db)) = length (files db)
   \<and> filter (\<lambda>f. file_id f \<noteq> fid) (files (update_file_checksum fid c db))
       = filter (\<lambda>f. file_id f \<noteq> fid) (files db)
   \<and> (fid \<noteq> [] \<and> nid \<noteq> [] \<and> c' \<noteq> [] \<and> checksum_unset db fid
        \<longrightarrow> files (fst (upload_confirm now fid nid c' db))
              = files (update_file_checksum fid (Some c') db))
   \<and> ((\<forall>f \<in> set (files db). file_id f = fid \<longrightarrow> checksum f \<noteq> None \<and> checksum f \<noteq> Some [])
        \<longrightarrow> files (fst (upload_confirm now fid nid c' db)) = files db)"
  using stored_checksums_update_file_checksum [of fid c db]
    length_files_update_file_checksum [of fid c db]
    filter_other_files [of fid c "files db"]
    upload_confirm_writes_unset [of fid nid c' db now]
    upload_confirm_keeps_checksum [of db fid now nid c']
  unfolding files_update_file_checksum by blast

theorem update_file_checksum_overwrites_witness:
  "stored_checksums (update_file_checksum ''f1'' (Some ''bb'') db_example) ''f1'' = [Some ''bb'']
   \<and> files (fst (upload_confirm 5 ''f1'' ''n1'' ''bb'' db_example)) = files db_example
   \<and> checksum_unset db_fresh ''f1''
   \<and> stored_checksums db_fresh ''f1'' = [None]
   \<and> stored_checksums (fst (upload_confirm 5 ''f1'' ''n1'' ''bb'' db_fresh)) ''f1'' = [Some ''bb'']"
proof -
  have pre: "\<forall>f \<in> set (files db_example). file_id f = ''f1'' \<longrightarrow> checksum f \<noteq> None \<and> checksum f \<noteq> Some []"
    by (simp add: db_example_def)
  have keep: "files (fst (upload_confirm 5 ''f1'' ''n1'' ''bb'' db_example)) = files db_example"
    using update_file_checksum_overwrites [of "''f1''" "Some ''bb''" db_example "''n1''" "''bb''" 5] pre
    by blast
  have over: "stored_checksums (update_file_checksum ''f1'' (Some ''bb'') db_example) ''f1'' = [Some ''bb'']"
    using update_file_checksum_overwrites [of "''f1''" "Some ''bb''" db_example "''n1''" "''bb''" 5]
    by (simp add: stored_checksums_def db_example_def)
  have unset: "checksum_unset db_fresh ''f1''"
    by (simp add: checksum_unset_def db_fresh_def)
  have before: "stored_checksums db_fresh ''f1'' = [None]"
    by (simp add: stored_checksums_def db_fresh_def)
  have ne: "''f1'' \<noteq> [] \<and> ''n1'' \<noteq> [] \<and> ''bb'' \<noteq> []" by simp
  have "files (fst (upload_confirm 5 ''f1'' ''n1'' ''bb'' db_fresh))
          = files (update_file_checksum ''f1'' (Some ''bb'') db_fresh)"
    using update_file_checksum_overwrites [of "''f1''" "Some ''bb''" db_fresh "''n1''" "''bb''" 5]
      ne unset by blast
  then have "stored_checksums (fst (upload_confirm 5 ''f1'' ''n1'' ''bb'' db_fresh)) ''f1''
          = stored_checksums (update_file_checksum ''f1'' (Some ''bb'') db_fresh) ''f1''"
    by (simp add: stored_checksums_def)
  also have "\<dots> = [Some ''bb'']"
    using update_file_checksum_overwrites [of "''f1''" "Some ''bb''" db_fresh "''n1''" "''bb''" 5] before
    by simp
  finally show ?thesis using keep over unset before by blast
qed

text \<open>
  C10: \<open>delete_file\<close> removes the file row and every replica row of the file; the
  boolean it returns says whether a replica row was deleted. So deleting an existing
  file that has no replicas removes the file row and returns \<open>False\<close>.
\<close>

theorem delete_file_returns_replica_rowcount:
  "files (fst (delete_file fid db)) = filter (\<lambda>f. file_id f \<noteq> fid) (files db)
   \<and> replicas (fst (delete_file fid db)) = filter (\<lambda>r. r_file_id r \<noteq> fid) (replicas db)
   \<and> (snd (delete_file fid db) \<longleftrightarrow> (\<exists>r \<in> set (replicas db). r_file_id r = fid))
   \<and> ((\<exists>f \<in> set (files db). file_id f = fid) \<and> (\<forall>r \<in> set (replicas db). r_file_id r \<noteq> fid)
        \<longrightarrow> \<not> snd (delete_file fid db) \<and> get_file (fst (delete_file fid db)) fid = None)"
proof -
  have none: "find (\<lambda>f. file_id f = fid) (filter (\<lambda>f. file_id f \<noteq> fid) fs) = None" for fs :: "file_row list"
    by (induction fs) auto
  have rc: "(0 < length (filter (\<lambda>r. r_file_id r = fid) (replicas db)))
              \<longleftrightarrow> (\<exists>r \<in> set (replicas db). r_file_id r = fid)"
    by (auto simp: filter_empty_conv)
  show ?thesis
    using rc by (auto simp: delete_file_def Let_def get_file_def none)
qed

theorem delete_file_returns_replica_rowcount_witness:
  "(\<exists>f \<in> set (files db_example). file_id f = ''f1'')
   \<and> replicas db_example = []
   \<and> \<not> snd (delete_file ''f1'' db_example)
   \<and> files (fst (delete_file ''f1'' db_example)) = []
   \<and> get_file (fst (delete_file ''f1'' db_example)) ''f1'' = None"
proof -
  have pre: "(\<exists>f \<in> set (files db_example). file_id f = ''f1'')" "replicas db_example = []"
    by (simp_all add: db_example_def)
  then have pre': "(\<exists>f \<in> set (files db_example). file_id f = ''f1'')
             \<and> (\<forall>r \<in> set (replicas db_example). r_file_id r \<noteq> ''f1'')"
    by simp
  have "\<not> snd (delete_file ''f1'' db_example) \<and> get_file (fst (delete_file ''f1'' db_example)) ''f1'' = None"
    using delete_file_returns_replica_rowcount [of "''f1''" db_example] pre' by blast
  moreover have "files (fst (delete_file ''f1'' db_example)) = []"
    using delete_file_returns_replica_rowcount [of "''f1''" db_example]
    by (simp add: db_example_def)
  ultimately show ?thesis using pre by blast
qed

section \<open>Node liveness (replication\_manager.py, HealthMonitor)\<close>







definition mark_all_inactive :: "string list \<Rightarrow> database \<Rightarrow> database" where
  "mark_all_inactive ids db = foldl (\<lambda>d nid. mark_node_inactive nid d) db ids"






lemma replicas_mark_all_inactive: "replicas (mark_all_inactive ids db) = replicas db"
  by (induction ids arbitrary: db) (simp_all add: mark_all_inactive_def mark_node_inactive_def)













section \<open>Storage nodes as seen by the coordinator\<close>

text \<open>
  The HTTP calls to storage nodes are the only input from outside. During one operation
  a node answers a request by a function of the request: \<open>download\<close> and \<open>verify\<close>
  of the node address and the file id, \<open>upload\<close> also of the bytes sent. \<open>None\<close> is a
  request that raised (timeout, refused connection, unreadable body); otherwise the
  HTTP status comes with the body (\<open>verify\<close>: the \<open>checksum\<close> field of the JSON
  body, \<open>None\<close> when the field is absent).
\<close>

record network =
  download :: "string \<Rightarrow> string \<Rightarrow> (int \<times> string) option"
  upload :: "string \<Rightarrow> string \<Rightarrow> string \<Rightarrow> int option"
  verify :: "string \<Rightarrow> string \<Rightarrow> (int \<times> string option) option"

text \<open>
  \<open>_copy_file_between_nodes\<close> (the same body in ReplicationManager and in
  AdvancedRecoveryManager): GET from the source, POST to the target, true when both
  answer 200; an exception gives false.
\<close>

definition copy_file_between_nodes :: "network \<Rightarrow> string \<Rightarrow> string \<Rightarrow> string \<Rightarrow> bool" where
  "copy_file_between_nodes net fid source_address target_address =
     (case download net source_address fid of
        None \<Rightarrow> False
      | Some (code, file_data) \<Rightarrow>
          if code \<noteq> 200 then False
          else (case upload net target_address fid file_data of
                  None \<Rightarrow> False
                | Some code' \<Rightarrow> code' = 200))"

section \<open>Replication controller (replication\_manager.py, ReplicationManager)\<close>

record replication_stats =
  replications_performed :: nat
  verifications_performed :: nat
  under_replicated_files :: nat

text \<open>Python's \<open>xs[:k]\<close>: a negative \<open>k\<close> counts from the end.\<close>

definition py_prefix :: "int \<Rightarrow> 'a list \<Rightarrow> 'a list" where
  "py_prefix k xs = (if k < 0 then take (nat (int (length xs) + k)) xs else take (nat k) xs)"

text \<open>
  \<open>_replicate_file\<close>, first half: the node ids of the file's active replicas, the
  active nodes not among them, the first active replica whose node is active as the
  source, and the targets. \<open>None\<close> is one of the two early returns.
\<close>

definition existing_node_ids :: "database \<Rightarrow> string \<Rightarrow> string list" where
  "existing_node_ids db fid =
     map node_id (filter (\<lambda>r. status r = ''active'') (get_replicas db fid))"

definition available_nodes :: "database \<Rightarrow> string \<Rightarrow> node_row list \<Rightarrow> node_row list" where
  "available_nodes db fid active_nodes =
     filter (\<lambda>node. n_node_id node \<notin> set (existing_node_ids db fid)) active_nodes"

definition replicate_file_plan ::
  "nat \<Rightarrow> database \<Rightarrow> string \<Rightarrow> node_row list \<Rightarrow> (string \<times> node_row list) option" where
  "replicate_file_plan min_replicas db fid active_nodes =
     (if available_nodes db fid active_nodes = [] then None
      else
        (case find (\<lambda>replica. status replica = ''active'' \<and>
                                list_ex (\<lambda>n. n_node_id n = node_id replica) active_nodes)
                   (get_replicas db fid) of
           None \<Rightarrow> None
         | Some source_replica \<Rightarrow>
             let needed_replicas = int min_replicas - int (length (existing_node_ids db fid))
             in Some (node_address source_replica,
                      py_prefix needed_replicas (available_nodes db fid active_nodes))))"

text \<open>Second half: one copy per target; a replica row and a count for each success.\<close>

fun replicate_to_targets ::
  "network \<Rightarrow> string \<Rightarrow> string \<Rightarrow> node_row list \<Rightarrow> database \<times> replication_stats
     \<Rightarrow> database \<times> replication_stats" where
  "replicate_to_targets net fid source_node [] s = s"
| "replicate_to_targets net fid source_node (target_node # rest) (db, st) =
     (if copy_file_between_nodes net fid source_node (n_node_address target_node)
      then replicate_to_targets net fid source_node rest
             (fst (add_replica fid (n_node_id target_node) (n_node_address target_node) ''active'' db),
              st\<lparr>replications_performed := replications_performed st + 1\<rparr>)
      else replicate_to_targets net fid source_node rest (db, st))"

definition replicate_file ::
  "network \<Rightarrow> nat \<Rightarrow> file_entry \<Rightarrow> node_row list \<Rightarrow> database \<times> replication_stats
     \<Rightarrow> database \<times> replication_stats" where
  "replicate_file net min_replicas file active_nodes s =
     (case replicate_file_plan min_replicas (fst s) (file_id (e_file file)) active_nodes of
        None \<Rightarrow> s
      | Some (source_node, target_nodes) \<Rightarrow>
          replicate_to_targets net (file_id (e_file file)) source_node target_nodes s)"

text \<open>
  \<open>_verify_replicas\<close>: for every listed file with a checksum, every replica that was
  active when the file's replicas were read is checked against its node. A match
  stamps the replica, a different checksum makes it \<open>corrupted\<close>, any other answer
  changes nothing. The result is the database and the number of replicas verified.
\<close>

fun verify_file_replicas ::
  "network \<Rightarrow> timestamp \<Rightarrow> string \<Rightarrow> string \<Rightarrow> replica_row list \<Rightarrow> database \<times> nat
     \<Rightarrow> database \<times> nat" where
  "verify_file_replicas net now fid expected_checksum [] s = s"
| "verify_file_replicas net now fid expected_checksum (replica # rest) (db, verified) =
     (if status replica \<noteq> ''active''
      then verify_file_replicas net now fid expected_checksum rest (db, verified)
      else
        (case verify net (node_address replica) fid of
           Some (code, actual_checksum) \<Rightarrow>
             if code = 200
             then (if actual_checksum = Some expected_checksum
                   then verify_file_replicas net now fid expected_checksum rest
                          (update_replica_status now fid (node_id replica) ''active'' db, verified + 1)
                   else verify_file_replicas net now fid expected_checksum rest
                          (update_replica_status now fid (node_id replica) ''corrupted'' db, verified))
             else verify_file_replicas net now fid expected_checksum rest (db, verified)
         | None \<Rightarrow> verify_file_replicas net now fid expected_checksum rest (db, verified)))"

fun verify_files ::
  "network \<Rightarrow> timestamp \<Rightarrow> file_entry list \<Rightarrow> database \<times> nat \<Rightarrow> database \<times> nat" where
  "verify_files net now [] s = s"
| "verify_files net now (file # rest) (db, verified) =
     (case checksum (e_file file) of
        None \<Rightarrow> verify_files net now rest (db, verified)
      | Some expected_checksum \<Rightarrow>
          if expected_checksum = [] then verify_files net now rest (db, verified)
          else verify_files net now rest
                 (verify_file_replicas net now (file_id (e_file file)) expected_checksum
                    (get_replicas db (file_id (e_file file))) (db, verified)))"

text \<open>
  \<open>list_files(limit=1000)\<close> cannot raise; the \<open>None\<close> branch is there for the type
  only.
\<close>

definition verify_replicas ::
  "network \<Rightarrow> timestamp \<Rightarrow> database \<times> replication_stats \<Rightarrow> database \<times> replication_stats" where
  "verify_replicas net now s =
     (case list_files 1000 0 (fst s) of
        None \<Rightarrow> s
      | Some listed \<Rightarrow>
          let (db', verified) = verify_files net now listed (fst s, 0)
          in (db', (snd s)\<lparr>verifications_performed := verifications_performed (snd s) + verified\<rparr>))"

section \<open>Properties of the replication controller\<close>

definition rc_node1 :: node_row where
  "rc_node1 = \<lparr>n_node_id = ''n1'', n_node_address = ''http://n1'', n_status = ''active'',
                available_space = 200, total_files = 1, last_heartbeat = 0, n_created_at = 0\<rparr>"

definition rc_node2 :: node_row where
  "rc_node2 = \<lparr>n_node_id = ''n2'', n_node_address = ''http://n2'', n_status = ''active'',
                available_space = 100, total_files = 1, last_heartbeat = 0, n_created_at = 1\<rparr>"

definition rc_example :: database where
  "rc_example =
     \<lparr>files = [\<lparr>file_id = ''f1'', filename = ''a.bin'', file_size = 10, checksum = Some ''aa'',
                upload_timestamp = 0, replication_factor = 2\<rparr>],
      replicas = [\<lparr>replica_id = 1, r_file_id = ''f1'', node_id = ''n1'', node_address = ''http://n1'',
                   status = ''active'', last_verified = None\<rparr>,
                  \<lparr>replica_id = 2, r_file_id = ''f1'', node_id = ''n2'', node_address = ''http://n2'',
                   status = ''corrupted'', last_verified = None\<rparr>],
      storage_nodes = [rc_node1, rc_node2],
      replica_seq = 2\<rparr>"

lemma set_py_prefix: "set (py_prefix k xs) \<subseteq> set xs"
  by (simp add: py_prefix_def set_take_subset)

lemma rc_example_plan:
  "replicate_file_plan 2 rc_example ''f1'' [rc_node1, rc_node2] = Some (''http://n1'', [rc_node2])"
  by (simp add: replicate_file_plan_def available_nodes_def existing_node_ids_def
      get_replicas_def rc_example_def rc_node1_def rc_node2_def py_prefix_def Let_def)

text \<open>
  C8 (as stated, refuted): \<open>n2\<close> holds a corrupted replica of \<open>f1\<close> and is the
  target chosen for the repair of \<open>f1\<close>.
\<close>

theorem replicate_file_counterexample:
  "map (\<lambda>r. (node_id r, status r)) (get_replicas rc_example ''f1'')
     = [(''n1'', ''active''), (''n2'', ''corrupted'')]
   \<and> map n_node_id (available_nodes rc_example ''f1'' [rc_node1, rc_node2]) = [''n2'']
   \<and> map_option (\<lambda>p. map n_node_id (snd p))
        (replicate_file_plan 2 rc_example ''f1'' [rc_node1, rc_node2]) = Some [''n2'']"
  by (simp add: rc_example_plan)
     (simp add: available_nodes_def existing_node_ids_def get_replicas_def rc_example_def
        rc_node1_def rc_node2_def)

text \<open>
  C8 (amended): the candidate targets of a repair are exactly the active nodes that
  hold no replica of the file in status \<open>active\<close>; a node whose replica of the file
  is pending, corrupted or inactive stays a candidate. The targets chosen are the
  first candidates, as many as active replicas are missing.
\<close>

theorem replicate_file_excludes_active_only:
  "set (available_nodes db fid active_nodes)
     = {n \<in> set active_nodes.
          \<not> (\<exists>r \<in> set (get_replicas db fid). node_id r = n_node_id n \<and> status r = ''active'')}
   \<and> (replicate_file_plan min_replicas db fid active_nodes = Some (source_node, target_nodes)
        \<longrightarrow> target_nodes = py_prefix (int min_replicas - int (length (existing_node_ids db fid)))
                             (available_nodes db fid active_nodes)
            \<and> set target_nodes \<subseteq> set (available_nodes db fid active_nodes))"
proof
  have h: "n_node_id n \<in> set (existing_node_ids db fid)
          \<longleftrightarrow> (\<exists>r \<in> set (get_replicas db fid). node_id r = n_node_id n \<and> status r = ''active'')"
    for n
    unfolding existing_node_ids_def set_map set_filter image_iff by auto
  show "set (available_nodes db fid active_nodes)
     = {n \<in> set active_nodes.
          \<not> (\<exists>r \<in> set (get_replicas db fid). node_id r = n_node_id n \<and> status r = ''active'')}"
    unfolding available_nodes_def set_filter h by (rule refl)
  show "replicate_file_plan min_replicas db fid active_nodes = Some (source_node, target_nodes)
        \<longrightarrow> target_nodes = py_prefix (int min_replicas - int (length (existing_node_ids db fid)))
                             (available_nodes db fid active_nodes)
            \<and> set target_nodes \<subseteq> set (available_nodes db fid active_nodes)"
    using set_py_prefix [of _ "available_nodes db fid active_nodes"]
    by (simp add: replicate_file_plan_def Let_def split: if_splits option.splits) blast
qed

theorem replicate_file_excludes_active_only_witness:
  "replicate_file_plan 2 rc_example ''f1'' [rc_node1, rc_node2] = Some (''http://n1'', [rc_node2])
   \<and> set [rc_node2] \<subseteq> set (available_nodes rc_example ''f1'' [rc_node1, rc_node2])"
  using replicate_file_excludes_active_only
          [of rc_example "''f1''" "[rc_node1, rc_node2]" 2 "''http://n1''" "[rc_node2]"]
        rc_example_plan
  by blast

section \<open>Recovery queue (advanced\_recovery.py, AdvancedRecoveryManager)\<close>

text \<open>
  A \<open>FileRecoveryRecord\<close> is a mutable object that the queue and the worker loops share
  by reference. The model keeps every record ever created in \<open>objects\<close>, in creation
  order; a reference is the index of the record there, and \<open>recovery_queue\<close> is a list
  of references. Python compares records by identity (the class defines no
  \<open>__eq__\<close>), which is equality of references here. The functions below are meant for
  references below \<open>length objects\<close>, the only ones the code can hold. The statistics
  and the history that are Python floats (\<open>average_recovery_time\<close>,
  \<open>recovery_time\<close>) are real numbers in the model.
\<close>

record recovery_record =
  rec_file_id :: string
  rec_filename :: string
  strategy :: string
  priority :: int
  attempts :: int
  max_attempts :: int
  last_attempt :: "timestamp option"
  rec_status :: string
  error_message :: "string option"
  rec_created_at :: timestamp

record history_entry =
  h_file_id :: string
  h_filename :: string
  h_timestamp :: timestamp
  h_success :: bool
  h_recovery_time :: real
  h_attempts :: int
  h_priority :: int
  h_strategy :: string
  h_error :: "string option"

record recovery_stats =
  total_recoveries :: nat
  successful_recoveries :: nat
  failed_recoveries :: nat
  pending_recoveries :: nat
  average_recovery_time :: real
  last_recovery :: "timestamp option"
  critical_files_recovered :: nat

record recovery_manager =
  objects :: "recovery_record list"
  recovery_queue :: "nat list"
  stats :: recovery_stats
  recovery_history :: "history_entry list"

definition retry_delay :: int where
  "retry_delay = 300"

definition max_history :: nat where
  "max_history = 100"

definition max_concurrent_recoveries :: nat where
  "max_concurrent_recoveries = 3"

definition recovery_manager_init :: recovery_manager where
  "recovery_manager_init =
     \<lparr>objects = [], recovery_queue = [],
      stats = \<lparr>total_recoveries = 0, successful_recoveries = 0, failed_recoveries = 0,
               pending_recoveries = 0, average_recovery_time = 0, last_recovery = None,
               critical_files_recovered = 0\<rparr>,
      recovery_history = []\<rparr>"

text \<open>\<open>FileRecoveryRecord.__init__\<close>.\<close>

definition new_record :: "timestamp \<Rightarrow> string \<Rightarrow> string \<Rightarrow> string \<Rightarrow> int \<Rightarrow> recovery_record" where
  "new_record now fid fname strat prio =
     \<lparr>rec_file_id = fid, rec_filename = fname, strategy = strat, priority = prio,
      attempts = 0, max_attempts = 3, last_attempt = None, rec_status = ''pending'',
      error_message = None, rec_created_at = now\<rparr>"

text \<open>
  \<open>add_to_recovery_queue\<close>: nothing happens when a queued record has the file id;
  otherwise a new record is appended and the queue is sorted by
  \<open>list.sort(key=priority, reverse=True)\<close>, a stable sort (records of equal priority
  keep their order), which is \<open>sort_key\<close> on the negated priority.
\<close>

definition add_to_recovery_queue ::
  "timestamp \<Rightarrow> string \<Rightarrow> string \<Rightarrow> string \<Rightarrow> int \<Rightarrow> recovery_manager \<Rightarrow> recovery_manager" where
  "add_to_recovery_queue now fid fname strat prio arm =
     (if list_ex (\<lambda>r. rec_file_id (objects arm ! r) = fid) (recovery_queue arm) then arm
      else
        let record = length (objects arm);
            objs = objects arm @ [new_record now fid fname strat prio];
            queue = sort_key (\<lambda>r. - priority (objs ! r)) (recovery_queue arm @ [record])
        in arm\<lparr>objects := objs, recovery_queue := queue,
               stats := (stats arm)\<lparr>pending_recoveries := length queue\<rparr>\<rparr>)"

text \<open>\<open>_add_to_history\<close>: the entry is appended and the last 100 entries are kept.\<close>

definition add_to_history ::
  "timestamp \<Rightarrow> nat \<Rightarrow> real \<Rightarrow> bool \<Rightarrow> recovery_manager \<Rightarrow> recovery_manager" where
  "add_to_history now record recovery_time success arm =
     (let r = objects arm ! record;
          history_entry =
            \<lparr>h_file_id = rec_file_id r, h_filename = rec_filename r, h_timestamp = now,
             h_success = success, h_recovery_time = recovery_time, h_attempts = attempts r,
             h_priority = priority r, h_strategy = strategy r,
             h_error = (if \<not> success then error_message r else None)\<rparr>;
          h = recovery_history arm @ [history_entry]
      in arm\<lparr>recovery_history :=
               (if length h > max_history then drop (length h - max_history) h else h)\<rparr>)"

definition mark_recovery_successful ::
  "timestamp \<Rightarrow> nat \<Rightarrow> real \<Rightarrow> recovery_manager \<Rightarrow> recovery_manager" where
  "mark_recovery_successful now record recovery_time arm =
     (let objs = (objects arm)[record := (objects arm ! record)\<lparr>rec_status := ''success''\<rparr>];
          queue = (if record \<in> set (recovery_queue arm)
                   then remove1 record (recovery_queue arm) else recovery_queue arm);
          s0 = (stats arm)\<lparr>pending_recoveries := length queue\<rparr>;
          s1 = s0\<lparr>successful_recoveries := successful_recoveries s0 + 1\<rparr>;
          s2 = s1\<lparr>total_recoveries := total_recoveries s1 + 1\<rparr>;
          s3 = s2\<lparr>last_recovery := Some now\<rparr>;
          s4 = (if priority (objs ! record) \<ge> 15
                then s3\<lparr>critical_files_recovered := critical_files_recovered s3 + 1\<rparr> else s3);
          total_time = average_recovery_time s4 * (real (successful_recoveries s4) - 1);
          s5 = s4\<lparr>average_recovery_time :=
                    (total_time + recovery_time) / real (successful_recoveries s4)\<rparr>
      in add_to_history now record recovery_time True
           (arm\<lparr>objects := objs, recovery_queue := queue, stats := s5\<rparr>))"

definition mark_recovery_failed ::
  "timestamp \<Rightarrow> nat \<Rightarrow> string \<Rightarrow> recovery_manager \<Rightarrow> recovery_manager" where
  "mark_recovery_failed now record error arm =
     (let objs = (objects arm)[record := (objects arm ! record)
                    \<lparr>rec_status := ''failed'', error_message := Some error\<rparr>];
          queue = (if record \<in> set (recovery_queue arm)
                   then remove1 record (recovery_queue arm) else recovery_queue arm);
          s0 = (stats arm)\<lparr>pending_recoveries := length queue\<rparr>;
          s1 = s0\<lparr>failed_recoveries := failed_recoveries s0 + 1\<rparr>;
          s2 = s1\<lparr>total_recoveries := total_recoveries s1 + 1\<rparr>
      in add_to_history now record 0 False
           (arm\<lparr>objects := objs, recovery_queue := queue, stats := s2\<rparr>))"

subsection \<open>Repair strategies\<close>

text \<open>
  Each strategy returns the database it leaves and whether it reports success. The
  hash function of \<open>hashlib\<close> is a parameter (\<open>sha256\<close>: bytes to hex digest). One
  attempt reads the clock once: every \<open>datetime.now()\<close> of the attempt is \<open>now\<close>.
  Database calls do not raise in the model.
\<close>

text \<open>
  \<open>_restore_from_data\<close>: POST the bytes to the first two active nodes; a replica row
  for each 200; success when both succeeded.
\<close>

fun restore_uploads ::
  "network \<Rightarrow> string \<Rightarrow> string \<Rightarrow> node_row list \<Rightarrow> database \<times> nat \<Rightarrow> database \<times> nat" where
  "restore_uploads net fid file_data [] s = s"
| "restore_uploads net fid file_data (node # rest) (db, success_count) =
     (case upload net (n_node_address node) fid file_data of
        Some code \<Rightarrow>
          if code = 200
          then restore_uploads net fid file_data rest
                 (fst (add_replica fid (n_node_id node) (n_node_address node) ''active'' db),
                  success_count + 1)
          else restore_uploads net fid file_data rest (db, success_count)
      | None \<Rightarrow> restore_uploads net fid file_data rest (db, success_count))"

definition restore_from_data ::
  "network \<Rightarrow> timestamp \<Rightarrow> string \<Rightarrow> string \<Rightarrow> database \<Rightarrow> database \<times> bool" where
  "restore_from_data net now fid file_data db =
     (let (db1, active_nodes) = get_active_nodes now 30 db
      in if length active_nodes < 2 then (db1, False)
         else
           let (db2, success_count) =
                 restore_uploads net fid file_data
                   (take (min 2 (length active_nodes)) active_nodes) (db1, 0)
           in (db2, success_count \<ge> 2))"

text \<open>
  \<open>_recover_from_backup\<close>: the inactive replicas in order; the first one that answers
  200 with bytes of the stored checksum decides (the result of the restore is
  returned); any other answer moves on to the next replica.
\<close>

fun recover_from_backup_loop ::
  "network \<Rightarrow> (string \<Rightarrow> string) \<Rightarrow> timestamp \<Rightarrow> file_row \<Rightarrow> replica_row list \<Rightarrow> database
     \<Rightarrow> database \<times> bool" where
  "recover_from_backup_loop net sha256 now file_info [] db = (db, False)"
| "recover_from_backup_loop net sha256 now file_info (replica # rest) db =
     (case download net (node_address replica) (file_id file_info) of
        Some (code, file_data) \<Rightarrow>
          if code = 200
          then (if Some (sha256 file_data) = checksum file_info
                then restore_from_data net now (file_id file_info) file_data db
                else recover_from_backup_loop net sha256 now file_info rest db)
          else recover_from_backup_loop net sha256 now file_info rest db
      | None \<Rightarrow> recover_from_backup_loop net sha256 now file_info rest db)"

definition recover_from_backup ::
  "network \<Rightarrow> (string \<Rightarrow> string) \<Rightarrow> timestamp \<Rightarrow> file_row \<Rightarrow> replica_row list \<Rightarrow> database
     \<Rightarrow> database \<times> bool" where
  "recover_from_backup net sha256 now file_info all_replicas db =
     recover_from_backup_loop net sha256 now file_info
       (filter (\<lambda>r. status r = ''inactive'') all_replicas) db"

text \<open>\<open>_create_additional_replicas\<close>.\<close>

fun create_replicas ::
  "network \<Rightarrow> string \<Rightarrow> string \<Rightarrow> node_row list \<Rightarrow> database \<times> nat \<Rightarrow> database \<times> nat" where
  "create_replicas net fid source_address [] s = s"
| "create_replicas net fid source_address (target_node # rest) (db, success_count) =
     (if copy_file_between_nodes net fid source_address (n_node_address target_node)
      then create_replicas net fid source_address rest
             (fst (add_replica fid (n_node_id target_node) (n_node_address target_node) ''active'' db),
              success_count + 1)
      else create_replicas net fid source_address rest (db, success_count))"

definition create_additional_replicas ::
  "network \<Rightarrow> timestamp \<Rightarrow> file_row \<Rightarrow> replica_row list \<Rightarrow> database \<Rightarrow> database \<times> bool" where
  "create_additional_replicas net now file_info active db =
     (let needed = 2 - int (length active);
          (db1, active_nodes) = get_active_nodes now 30 db;
          existing = map node_id active;
          available = filter (\<lambda>n. n_node_id n \<notin> set existing) active_nodes
      in if int (length available) < needed then (db1, False)
         else
           (case active of
              [] \<Rightarrow> (db1, False)
            | source_replica # _ \<Rightarrow>
                let (db2, success_count) =
                      create_replicas net (file_id file_info) (node_address source_replica)
                        (take (nat needed) available) (db1, 0)
                in (db2, success_count > 0)))"

text \<open>
  \<open>_replace_corrupted_replicas\<close>: a copy onto every corrupted replica's node, the
  replica made active where the copy succeeded; the function ends with
  \<open>return True\<close>.
\<close>

fun replace_each ::
  "network \<Rightarrow> timestamp \<Rightarrow> string \<Rightarrow> string \<Rightarrow> replica_row list \<Rightarrow> database \<Rightarrow> database" where
  "replace_each net now fid source_address [] db = db"
| "replace_each net now fid source_address (corrupted # rest) db =
     (if copy_file_between_nodes net fid source_address (node_address corrupted)
      then replace_each net now fid source_address rest
             (update_replica_status now fid (node_id corrupted) ''active'' db)
      else replace_each net now fid source_address rest db)"

definition replace_corrupted_replicas ::
  "network \<Rightarrow> timestamp \<Rightarrow> file_row \<Rightarrow> replica_row list \<Rightarrow> replica_row list \<Rightarrow> database
     \<Rightarrow> database \<times> bool" where
  "replace_corrupted_replicas net now file_info all_replicas corrupted_replicas db =
     (case filter (\<lambda>r. status r = ''active'') all_replicas of
        [] \<Rightarrow> (db, False)
      | source_replica # _ \<Rightarrow>
          (replace_each net now (file_id file_info) (node_address source_replica)
             corrupted_replicas db,
           True))"

subsection \<open>One attempt\<close>

text \<open>
  \<open>_attempt_recovery\<close>. \<open>elapsed\<close> is what \<open>time.time() - start_time\<close> measures.
\<close>

definition begin_attempt :: "timestamp \<Rightarrow> nat \<Rightarrow> recovery_manager \<Rightarrow> recovery_manager" where
  "begin_attempt now record arm =
     arm\<lparr>objects := (objects arm)[record := (objects arm ! record)
                         \<lparr>attempts := attempts (objects arm ! record) + 1,
                          last_attempt := Some now\<rparr>]\<rparr>"

definition run_strategy ::
  "network \<Rightarrow> (string \<Rightarrow> string) \<Rightarrow> timestamp \<Rightarrow> file_row \<Rightarrow> replica_row list \<Rightarrow> database
     \<Rightarrow> database \<times> bool" where
  "run_strategy net sha256 now file_info all_replicas db =
     (let active = filter (\<lambda>r. status r = ''active'') all_replicas;
          corrupted = filter (\<lambda>r. status r = ''corrupted'') all_replicas
      in if length active = 0 then recover_from_backup net sha256 now file_info all_replicas db
         else if length active < 2 then create_additional_replicas net now file_info active db
         else if length corrupted > 0
              then replace_corrupted_replicas net now file_info all_replicas corrupted db
         else (db, True))"

definition attempt_recovery ::
  "network \<Rightarrow> (string \<Rightarrow> string) \<Rightarrow> timestamp \<Rightarrow> real \<Rightarrow> nat \<Rightarrow> recovery_manager \<times> database
     \<Rightarrow> recovery_manager \<times> database" where
  "attempt_recovery net sha256 now elapsed record s =
     (let arm = fst s; db = snd s; r = objects arm ! record
      in if (case last_attempt r of None \<Rightarrow> False | Some t \<Rightarrow> now - t < seconds retry_delay)
         then s
         else if attempts r \<ge> max_attempts r
         then (mark_recovery_failed now record ''Max attempts exceeded'' arm, db)
         else
           let arm1 = begin_attempt now record arm
           in (case get_file db (rec_file_id r) of
                 None \<Rightarrow> (mark_recovery_failed now record ''File not found in database'' arm1, db)
               | Some (file_info, all_replicas) \<Rightarrow>
                   let (db', success) = run_strategy net sha256 now file_info all_replicas db
                   in if success
                      then (mark_recovery_successful now record elapsed arm1, db')
                      else (mark_recovery_failed now record ''Recovery operation failed'' arm1, db')))"

subsection \<open>Proactive scan\<close>

text \<open>
  \<open>_check_corrupted_replicas\<close>: every listed file with at least one corrupted replica
  is put on the queue with the strategy \<open>immediate\<close> and priority 15.
\<close>

fun check_corrupted_files ::
  "timestamp \<Rightarrow> database \<Rightarrow> file_entry list \<Rightarrow> recovery_manager \<Rightarrow> recovery_manager" where
  "check_corrupted_files now db [] arm = arm"
| "check_corrupted_files now db (file # rest) arm =
     (let corrupted_count =
            length (filter (\<lambda>r. status r = ''corrupted'') (get_replicas db (file_id (e_file file))))
      in if corrupted_count > 0
         then check_corrupted_files now db rest
                (add_to_recovery_queue now (file_id (e_file file)) (filename (e_file file))
                   ''immediate'' 15 arm)
         else check_corrupted_files now db rest arm)"

definition check_corrupted_replicas :: "timestamp \<Rightarrow> database \<Rightarrow> recovery_manager \<Rightarrow> recovery_manager" where
  "check_corrupted_replicas now db arm =
     (case list_files 1000 0 db of
        None \<Rightarrow> arm
      | Some listed \<Rightarrow> check_corrupted_files now db listed arm)"

section \<open>Properties of the repair strategies\<close>

subsection \<open>Disaster recovery\<close>

text \<open>
  An inactive replica serves valid bytes when its node answers the download with 200
  and bytes whose digest is the stored checksum; \<open>served_bytes\<close> are those bytes.
  \<open>restore_successes\<close> counts the restore uploads that return 200: the uploads go to
  the first two active nodes.
\<close>

definition serves_valid :: "network \<Rightarrow> (string \<Rightarrow> string) \<Rightarrow> file_row \<Rightarrow> replica_row \<Rightarrow> bool" where
  "serves_valid net sha256 file_info r =
     (case download net (node_address r) (file_id file_info) of
        None \<Rightarrow> False
      | Some (code, file_data) \<Rightarrow> code = 200 \<and> Some (sha256 file_data) = checksum file_info)"

definition served_bytes :: "network \<Rightarrow> file_row \<Rightarrow> replica_row \<Rightarrow> string" where
  "served_bytes net file_info r =
     (case download net (node_address r) (file_id file_info) of
        None \<Rightarrow> []
      | Some (code, file_data) \<Rightarrow> file_data)"

definition restore_successes :: "network \<Rightarrow> timestamp \<Rightarrow> string \<Rightarrow> string \<Rightarrow> database \<Rightarrow> nat" where
  "restore_successes net now fid file_data db =
     length (filter (\<lambda>n. upload net (n_node_address n) fid file_data = Some 200)
               (take 2 (snd (get_active_nodes now 30 db))))"

lemma restore_uploads_count:
  "snd (restore_uploads net fid d ns (db, k))
     = k + length (filter (\<lambda>n. upload net (n_node_address n) fid d = Some 200) ns)"
  by (induction ns arbitrary: db k) (simp_all split: option.splits)

lemma restore_from_data_success:
  "snd (restore_from_data net now fid d db) \<longleftrightarrow> 2 \<le> restore_successes net now fid d db"
proof -
  obtain db1 ns where g: "get_active_nodes now 30 db = (db1, ns)"
    by (cases "get_active_nodes now 30 db")
  show ?thesis
  proof (cases "length ns < 2")
    case True
    have "length (filter (\<lambda>n. upload net (n_node_address n) fid d = Some 200) (take 2 ns))
            \<le> length (take 2 ns)"
      by (rule length_filter_le)
    also have "\<dots> \<le> length ns" by simp
    finally have le: "length (filter (\<lambda>n. upload net (n_node_address n) fid d = Some 200) (take 2 ns))
            \<le> length ns" .
    from le True
    have "length (filter (\<lambda>n. upload net (n_node_address n) fid d = Some 200) (take 2 ns)) < 2"
      by (rule le_less_trans)
    then have "\<not> 2 \<le> restore_successes net now fid d db"
      unfolding restore_successes_def g snd_conv by simp
    moreover from True have "\<not> snd (restore_from_data net now fid d db)"
      by (simp add: restore_from_data_def g)
    ultimately show ?thesis by simp
  next
    case False
    then have t: "take (min 2 (length ns)) ns = take 2 ns" by (simp add: min_def)
    obtain db2 c where r: "restore_uploads net fid d (take 2 ns) (db1, 0) = (db2, c)"
      by (cases "restore_uploads net fid d (take 2 ns) (db1, 0)")
    have "c = length (filter (\<lambda>n. upload net (n_node_address n) fid d = Some 200) (take 2 ns))"
      using restore_uploads_count [of net fid d "take 2 ns" db1 0] r by simp
    with False show ?thesis
      by (simp add: restore_from_data_def g t r restore_successes_def)
  qed
qed

lemma recover_from_backup_loop_success:
  "snd (recover_from_backup_loop net sha256 now f rs db)
     = (case find (serves_valid net sha256 f) rs of
          None \<Rightarrow> False
        | Some r \<Rightarrow> 2 \<le> restore_successes net now (file_id f) (served_bytes net f r) db)"
proof (induction rs)
  case Nil
  show ?case by simp
next
  case (Cons r rs)
  show ?case
  proof (cases "serves_valid net sha256 f r")
    case True
    then obtain d where d: "download net (node_address r) (file_id f) = Some (200, d)"
        and c: "Some (sha256 d) = checksum f"
      by (auto simp: serves_valid_def split: option.splits)
    from d have "served_bytes net f r = d" by (simp add: served_bytes_def)
    with True d c show ?thesis by (simp add: restore_from_data_success)
  next
    case False
    then have "recover_from_backup_loop net sha256 now f (r # rs) db
                 = recover_from_backup_loop net sha256 now f rs db"
      by (auto simp: serves_valid_def split: option.splits)
    with False Cons.IH show ?thesis by simp
  qed
qed

lemma recover_from_backup_loop_skip:
  "\<not> serves_valid net sha256 f r \<Longrightarrow>
     recover_from_backup_loop net sha256 now f (r # rs) db
       = recover_from_backup_loop net sha256 now f rs db"
  by (auto simp: serves_valid_def split: option.splits)

lemma find_filter_None:
  "find P (filter Q xs) = None \<longleftrightarrow> \<not> (\<exists>x \<in> set xs. Q x \<and> P x)"
  by (auto simp: find_None_iff)


definition dr_file :: file_row where
  "dr_file = \<lparr>file_id = ''f1'', filename = ''a.bin'', file_size = 4, checksum = Some ''h1'',
               upload_timestamp = 0, replication_factor = 2\<rparr>"

definition dr_replica1 :: replica_row where
  "dr_replica1 = \<lparr>replica_id = 1, r_file_id = ''f1'', node_id = ''n1'', node_address = ''http://n1'',
                   status = ''inactive'', last_verified = None\<rparr>"

definition dr_replica2 :: replica_row where
  "dr_replica2 = \<lparr>replica_id = 2, r_file_id = ''f1'', node_id = ''n2'', node_address = ''http://n2'',
                   status = ''inactive'', last_verified = None\<rparr>"

definition dr_db :: database where
  "dr_db =
     \<lparr>files = [dr_file],
      replicas = [dr_replica1, dr_replica2],
      storage_nodes =
        [\<lparr>n_node_id = ''n3'', n_node_address = ''http://n3'', n_status = ''active'',
          available_space = 300, total_files = 0, last_heartbeat = seconds 995, n_created_at = 3\<rparr>,
         \<lparr>n_node_id = ''n4'', n_node_address = ''http://n4'', n_status = ''active'',
          available_space = 200, total_files = 0, last_heartbeat = seconds 990, n_created_at = 4\<rparr>],
      replica_seq = 2\<rparr>"

definition dr_sha :: "string \<Rightarrow> string" where
  "dr_sha d = (if d = ''good'' then ''h1'' else ''h0'')"

definition dr_net :: network where
  "dr_net =
     \<lparr>download = (\<lambda>addr fid. if addr = ''http://n1'' then Some (200, ''bad'')
                              else if addr = ''http://n2'' then Some (200, ''good'')
                              else None),
      upload = (\<lambda>addr fid d. Some 200),
      verify = (\<lambda>addr fid. None)\<rparr>"

text \<open>
  C5: disaster recovery is the strategy of a file without active replicas. It reports
  success exactly when some inactive replica serves bytes of the stored checksum and,
  for the first such replica, at least two of the restore uploads of its bytes return
  200. A replica that does not serve such bytes is skipped and the next one is tried.
\<close>

theorem recover_from_backup_success_iff:
  "snd (recover_from_backup net sha256 now f rs db)
     = (case find (serves_valid net sha256 f) (filter (\<lambda>r. status r = ''inactive'') rs) of
          None \<Rightarrow> False
        | Some r \<Rightarrow> 2 \<le> restore_successes net now (file_id f) (served_bytes net f r) db)
   \<and> (find (serves_valid net sha256 f) (filter (\<lambda>r. status r = ''inactive'') rs) = None
        \<longleftrightarrow> \<not> (\<exists>r \<in> set rs. status r = ''inactive'' \<and> serves_valid net sha256 f r))
   \<and> (\<not> serves_valid net sha256 f r \<longrightarrow>
        recover_from_backup_loop net sha256 now f (r # rest) db
          = recover_from_backup_loop net sha256 now f rest db)
   \<and> (filter (\<lambda>r. status r = ''active'') rs = [] \<longrightarrow>
        run_strategy net sha256 now f rs db = recover_from_backup net sha256 now f rs db)"
proof (intro conjI impI)
  show "snd (recover_from_backup net sha256 now f rs db)
     = (case find (serves_valid net sha256 f) (filter (\<lambda>r. status r = ''inactive'') rs) of
          None \<Rightarrow> False
        | Some r \<Rightarrow> 2 \<le> restore_successes net now (file_id f) (served_bytes net f r) db)"
    unfolding recover_from_backup_def by (rule recover_from_backup_loop_success)
  show "find (serves_valid net sha256 f) (filter (\<lambda>r. status r = ''inactive'') rs) = None
        \<longleftrightarrow> \<not> (\<exists>r \<in> set rs. status r = ''inactive'' \<and> serves_valid net sha256 f r)"
    by (rule find_filter_None)
  show "recover_from_backup_loop net sha256 now f (r # rest) db
          = recover_from_backup_loop net sha256 now f rest db"
    if "\<not> serves_valid net sha256 f r"
    using that by (rule recover_from_backup_loop_skip)
  show "run_strategy net sha256 now f rs db = recover_from_backup net sha256 now f rs db"
    if "filter (\<lambda>r. status r = ''active'') rs = []"
    using that by (simp add: run_strategy_def)
qed

lemma dr_find:
  "find (serves_valid dr_net dr_sha dr_file)
     (filter (\<lambda>r. status r = ''inactive'') [dr_replica1, dr_replica2]) = Some dr_replica2"
  by (simp add: serves_valid_def dr_net_def dr_sha_def dr_file_def dr_replica1_def dr_replica2_def)

lemma dr_restore_successes:
  "restore_successes dr_net (seconds 1000) ''f1'' ''good'' dr_db = 2"
  by (simp add: restore_successes_def get_active_nodes_def dr_db_def dr_net_def seconds_def)

theorem recover_from_backup_success_iff_witness:
  "\<not> serves_valid dr_net dr_sha dr_file dr_replica1
   \<and> serves_valid dr_net dr_sha dr_file dr_replica2
   \<and> filter (\<lambda>r. status r = ''active'') [dr_replica1, dr_replica2] = []
   \<and> restore_successes dr_net (seconds 1000) ''f1'' ''good'' dr_db = 2
   \<and> snd (recover_from_backup dr_net dr_sha (seconds 1000) dr_file [dr_replica1, dr_replica2] dr_db)
   \<and> snd (run_strategy dr_net dr_sha (seconds 1000) dr_file [dr_replica1, dr_replica2] dr_db)"
proof -
  note main = recover_from_backup_success_iff
                [of dr_net dr_sha "seconds 1000" dr_file "[dr_replica1, dr_replica2]" dr_db
                    dr_replica1 "[dr_replica2]"]
  have v1: "\<not> serves_valid dr_net dr_sha dr_file dr_replica1"
    by (simp add: serves_valid_def dr_net_def dr_sha_def dr_file_def dr_replica1_def)
  have v2: "serves_valid dr_net dr_sha dr_file dr_replica2"
    by (simp add: serves_valid_def dr_net_def dr_sha_def dr_file_def dr_replica2_def)
  have na: "filter (\<lambda>r. status r = ''active'') [dr_replica1, dr_replica2] = []"
    by (simp add: dr_replica1_def dr_replica2_def)
  have b: "served_bytes dr_net dr_file dr_replica2 = ''good''"
    by (simp add: served_bytes_def dr_net_def dr_file_def dr_replica2_def)
  have fid: "file_id dr_file = ''f1''" by (simp add: dr_file_def)
  have "snd (recover_from_backup dr_net dr_sha (seconds 1000) dr_file [dr_replica1, dr_replica2] dr_db)
     = (case find (serves_valid dr_net dr_sha dr_file)
               (filter (\<lambda>r. status r = ''inactive'') [dr_replica1, dr_replica2]) of
          None \<Rightarrow> False
        | Some r \<Rightarrow> 2 \<le> restore_successes dr_net (seconds 1000) (file_id dr_file)
                              (served_bytes dr_net dr_file r) dr_db)"
    using main by (rule conjunct1)
  then have ok: "snd (recover_from_backup dr_net dr_sha (seconds 1000) dr_file [dr_replica1, dr_replica2] dr_db)"
    unfolding dr_find by (simp add: b fid dr_restore_successes)
  moreover have "run_strategy dr_net dr_sha (seconds 1000) dr_file [dr_replica1, dr_replica2] dr_db
          = recover_from_backup dr_net dr_sha (seconds 1000) dr_file [dr_replica1, dr_replica2] dr_db"
    using main na by blast
  ultimately show ?thesis using v1 v2 na dr_restore_successes by simp
qed

subsection \<open>Rebuild of corrupted replicas\<close>

definition rb_file :: file_row where
  "rb_file = \<lparr>file_id = ''f1'', filename = ''a.bin'', file_size = 4, checksum = Some ''h1'',
               upload_timestamp = 0, replication_factor = 2\<rparr>"

definition rb_replicas :: "replica_row list" where
  "rb_replicas =
     [\<lparr>replica_id = 1, r_file_id = ''f1'', node_id = ''n1'', node_address = ''http://n1'',
       status = ''active'', last_verified = None\<rparr>,
      \<lparr>replica_id = 2, r_file_id = ''f1'', node_id = ''n2'', node_address = ''http://n2'',
       status = ''active'', last_verified = None\<rparr>,
      \<lparr>replica_id = 3, r_file_id = ''f1'', node_id = ''n3'', node_address = ''http://n3'',
       status = ''corrupted'', last_verified = None\<rparr>]"

definition rb_db :: database where
  "rb_db = \<lparr>files = [rb_file], replicas = rb_replicas, storage_nodes = [], replica_seq = 3\<rparr>"

text \<open>Every download answers 200 with the bytes, every upload answers 500.\<close>

definition rb_net :: network where
  "rb_net =
     \<lparr>download = (\<lambda>addr fid. Some (200, ''good'')),
      upload = (\<lambda>addr fid d. Some 500),
      verify = (\<lambda>addr fid. None)\<rparr>"

definition rb_arm :: recovery_manager where
  "rb_arm = add_to_recovery_queue 0 ''f1'' ''a.bin'' ''immediate'' 15 recovery_manager_init"

lemma replace_each_no_copy:
  "\<forall>c \<in> set cs. \<not> copy_file_between_nodes net fid src (node_address c) \<Longrightarrow>
     replace_each net now fid src cs db = db"
  by (induction cs arbitrary: db) simp_all

lemma rb_copy_fails: "\<not> copy_file_between_nodes rb_net fid src tgt"
  by (simp add: copy_file_between_nodes_def rb_net_def)

lemma rb_get_file: "get_file rb_db ''f1'' = Some (rb_file, rb_replicas)"
  by (simp add: get_file_def rb_db_def rb_file_def rb_replicas_def)

lemma rb_run_strategy: "run_strategy rb_net sha256 now rb_file rb_replicas rb_db = (rb_db, True)"
proof -
  have "replace_each rb_net now ''f1'' ''http://n1''
          (filter (\<lambda>r. status r = ''corrupted'') rb_replicas) rb_db = rb_db"
    by (rule replace_each_no_copy) (simp add: rb_copy_fails)
  then show ?thesis
    by (simp add: run_strategy_def replace_corrupted_replicas_def rb_replicas_def rb_file_def)
qed

lemma rb_arm_eq:
  "rb_arm = \<lparr>objects = [new_record 0 ''f1'' ''a.bin'' ''immediate'' 15], recovery_queue = [0],
             stats = \<lparr>total_recoveries = 0, successful_recoveries = 0, failed_recoveries = 0,
                      pending_recoveries = 1, average_recovery_time = 0, last_recovery = None,
                      critical_files_recovered = 0\<rparr>,
             recovery_history = []\<rparr>"
  by (simp add: rb_arm_def add_to_recovery_queue_def recovery_manager_init_def Let_def)

text \<open>
  C6 (the code differs): \<open>_replace_corrupted_replicas\<close> reports success whenever the
  file has an active replica, whatever the copies did. Here the file has two active
  replicas and a corrupted one on \<open>n3\<close>, and every upload answers 500: no replica is
  replaced, the corrupted replica stays corrupted, and the attempt is recorded as a
  success: the record leaves the queue with status \<open>success\<close> and
  \<open>successful_recoveries\<close> becomes 1.
\<close>

theorem replace_corrupted_replicas_always_succeeds:
  "snd (replace_corrupted_replicas net now f rs cs db)
     = (filter (\<lambda>r. status r = ''active'') rs \<noteq> [])
   \<and> \<not> copy_file_between_nodes rb_net ''f1'' ''http://n1'' ''http://n3''
   \<and> replace_corrupted_replicas rb_net (seconds 1000) rb_file rb_replicas
        (filter (\<lambda>r. status r = ''corrupted'') rb_replicas) rb_db = (rb_db, True)
   \<and> map status (replicas (snd (attempt_recovery rb_net sha256 (seconds 1000) 0 0 (rb_arm, rb_db))))
       = [''active'', ''active'', ''corrupted'']
   \<and> rec_status (objects (fst (attempt_recovery rb_net sha256 (seconds 1000) 0 0 (rb_arm, rb_db))) ! 0)
       = ''success''
   \<and> recovery_queue (fst (attempt_recovery rb_net sha256 (seconds 1000) 0 0 (rb_arm, rb_db))) = []
   \<and> successful_recoveries (stats (fst (attempt_recovery rb_net sha256 (seconds 1000) 0 0 (rb_arm, rb_db))))
       = 1"
proof -
  have g: "snd (replace_corrupted_replicas net now f rs cs db)
     = (filter (\<lambda>r. status r = ''active'') rs \<noteq> [])"
    by (cases "filter (\<lambda>r. status r = ''active'') rs")
       (simp_all add: replace_corrupted_replicas_def)
  have e: "replace_each rb_net (seconds 1000) ''f1'' ''http://n1''
          (filter (\<lambda>r. status r = ''corrupted'') rb_replicas) rb_db = rb_db"
    by (rule replace_each_no_copy) (simp add: rb_copy_fails)
  then have r: "replace_corrupted_replicas rb_net (seconds 1000) rb_file rb_replicas
        (filter (\<lambda>r. status r = ''corrupted'') rb_replicas) rb_db = (rb_db, True)"
    by (simp add: replace_corrupted_replicas_def rb_replicas_def rb_file_def)
  have a: "attempt_recovery rb_net sha256 (seconds 1000) 0 0 (rb_arm, rb_db)
             = (mark_recovery_successful (seconds 1000) 0 0 (begin_attempt (seconds 1000) 0 rb_arm), rb_db)"
  proof -
    have r0: "objects rb_arm ! 0 = new_record 0 ''f1'' ''a.bin'' ''immediate'' 15"
      by (simp add: rb_arm_eq)
    have f0: "rec_file_id (objects rb_arm ! 0) = ''f1''" "last_attempt (objects rb_arm ! 0) = None"
      "attempts (objects rb_arm ! 0) = 0" "max_attempts (objects rb_arm ! 0) = 3"
      unfolding r0 by (simp_all add: new_record_def)
    show ?thesis
      unfolding attempt_recovery_def Let_def fst_conv snd_conv f0
      by (simp add: rb_get_file rb_run_strategy)
  qed
  have m: "mark_recovery_successful (seconds 1000) 0 0 (begin_attempt (seconds 1000) 0 rb_arm)
     = \<lparr>objects = [(new_record 0 ''f1'' ''a.bin'' ''immediate'' 15)
                      \<lparr>attempts := 1, last_attempt := Some (seconds 1000), rec_status := ''success''\<rparr>],
        recovery_queue = [],
        stats = \<lparr>total_recoveries = 1, successful_recoveries = 1, failed_recoveries = 0,
                 pending_recoveries = 0, average_recovery_time = 0,
                 last_recovery = Some (seconds 1000), critical_files_recovered = 1\<rparr>,
        recovery_history =
          [\<lparr>h_file_id = ''f1'', h_filename = ''a.bin'', h_timestamp = seconds 1000,
            h_success = True, h_recovery_time = 0, h_attempts = 1, h_priority = 15,
            h_strategy = ''immediate'', h_error = None\<rparr>]\<rparr>"
    by (simp add: mark_recovery_successful_def begin_attempt_def add_to_history_def rb_arm_eq
        new_record_def max_history_def Let_def)
  show ?thesis
    unfolding a m using g r rb_copy_fails
    by (simp add: rb_db_def rb_replicas_def new_record_def)
qed

section \<open>Order of the recovery queue\<close>

text \<open>
  The states of the recovery manager: the initial one, and what the operations that
  touch the queue or the records make of a state. \<open>_attempt_recovery\<close>,
  \<open>force_recovery\<close> and the scans are compositions of these.
\<close>

inductive reachable :: "recovery_manager \<Rightarrow> bool" where
  init: "reachable recovery_manager_init"
| enqueue: "reachable arm \<Longrightarrow> reachable (add_to_recovery_queue now fid fname strat prio arm)"
| success: "reachable arm \<Longrightarrow> reachable (mark_recovery_successful now record recovery_time arm)"
| failure: "reachable arm \<Longrightarrow> reachable (mark_recovery_failed now record error arm)"
| attempt: "reachable arm \<Longrightarrow> reachable (begin_attempt now record arm)"

text \<open>
  The order: every queued reference is a record, and of two queued records the earlier
  one has the higher priority, or the same priority and was created (and so enqueued)
  earlier. References count the records in creation order, and a record is appended to
  the queue when it is created.
\<close>

definition queue_ordered :: "recovery_manager \<Rightarrow> bool" where
  "queue_ordered arm \<longleftrightarrow>
     (\<forall>r \<in> set (recovery_queue arm). r < length (objects arm)) \<and>
     sorted_wrt (\<lambda>a b. priority (objects arm ! a) > priority (objects arm ! b) \<or>
                        (priority (objects arm ! a) = priority (objects arm ! b) \<and> a < b))
       (recovery_queue arm)"

definition ordered_by :: "int list \<Rightarrow> nat list \<Rightarrow> bool" where
  "ordered_by ps q \<longleftrightarrow>
     (\<forall>r \<in> set q. r < length ps) \<and>
     sorted_wrt (\<lambda>a b. ps ! a > ps ! b \<or> (ps ! a = ps ! b \<and> a < b)) q"

lemma queue_ordered_iff:
  "queue_ordered arm \<longleftrightarrow> ordered_by (map priority (objects arm)) (recovery_queue arm)"
proof -
  let ?q = "recovery_queue arm" and ?os = "objects arm"
  let ?R = "\<lambda>a b. priority (?os ! a) > priority (?os ! b) \<or>
                   (priority (?os ! a) = priority (?os ! b) \<and> a < b)"
  let ?S = "\<lambda>a b. map priority ?os ! a > map priority ?os ! b \<or>
                   (map priority ?os ! a = map priority ?os ! b \<and> a < b)"
  have "sorted_wrt ?R ?q \<longleftrightarrow> sorted_wrt ?S ?q" if v: "\<forall>r \<in> set ?q. r < length ?os"
  proof
    assume "sorted_wrt ?R ?q"
    then show "sorted_wrt ?S ?q"
      by (rule sorted_wrt_mono_rel [rotated]) (use v in auto)
  next
    assume "sorted_wrt ?S ?q"
    then show "sorted_wrt ?R ?q"
      by (rule sorted_wrt_mono_rel [rotated]) (use v in auto)
  qed
  then show ?thesis
    unfolding queue_ordered_def ordered_by_def by auto
qed

subsection \<open>What each operation does to the records' priorities and to the queue\<close>

lemma map_priority_update:
  assumes "priority y = priority (xs ! i)"
  shows "map priority (xs[i := y]) = map priority xs"
proof (cases "i < length xs")
  case True
  have "map priority (xs[i := y]) = (map priority xs)[i := priority (xs ! i)]"
    by (simp add: map_update assms)
  also have "\<dots> = (map priority xs)[i := map priority xs ! i]"
    using True by simp
  also have "\<dots> = map priority xs"
    by (rule list_update_id)
  finally show ?thesis .
next
  case False
  then have "length xs \<le> i" by simp
  then have "xs[i := y] = xs" by (rule list_update_beyond)
  then show ?thesis by (rule arg_cong)
qed

lemma objects_add_to_history [simp]:
  "objects (add_to_history now record t ok arm) = objects arm"
  by (simp add: add_to_history_def Let_def)

lemma queue_add_to_history [simp]:
  "recovery_queue (add_to_history now record t ok arm) = recovery_queue arm"
  by (simp add: add_to_history_def Let_def)

lemma remove1_if: "(if x \<in> set xs then remove1 x xs else xs) = remove1 x xs"
  by (simp add: remove1_idem)

lemma queue_mark_recovery_successful:
  "recovery_queue (mark_recovery_successful now record t arm) = remove1 record (recovery_queue arm)"
  by (simp add: mark_recovery_successful_def Let_def remove1_if)

lemma queue_mark_recovery_failed:
  "recovery_queue (mark_recovery_failed now record e arm) = remove1 record (recovery_queue arm)"
  by (simp add: mark_recovery_failed_def Let_def remove1_if)

lemma queue_begin_attempt:
  "recovery_queue (begin_attempt now record arm) = recovery_queue arm"
  by (simp add: begin_attempt_def)

lemma priorities_mark_recovery_successful:
  "map priority (objects (mark_recovery_successful now record t arm)) = map priority (objects arm)"
  by (simp add: mark_recovery_successful_def Let_def map_priority_update)

lemma priorities_mark_recovery_failed:
  "map priority (objects (mark_recovery_failed now record e arm)) = map priority (objects arm)"
  by (simp add: mark_recovery_failed_def Let_def map_priority_update)

lemma priorities_begin_attempt:
  "map priority (objects (begin_attempt now record arm)) = map priority (objects arm)"
  by (simp add: begin_attempt_def map_priority_update)

subsection \<open>A stable sort after an append\<close>

lemma sorted_split_filter:
  "sorted (map f q) \<Longrightarrow> filter (\<lambda>y. f y \<le> k) q @ filter (\<lambda>y. k < f y) q = q"
proof (induction q)
  case Nil
  show ?case by simp
next
  case (Cons a q)
  then have s: "sorted (map f q)" and le: "\<forall>y \<in> set q. f a \<le> f y" by auto
  show ?case
  proof (cases "f a \<le> k")
    case True
    with Cons.IH [OF s] show ?thesis by simp
  next
    case False
    with le have "\<forall>y \<in> set q. k < f y" by auto
    then have "filter (\<lambda>y. f y \<le> k) q = []" "filter (\<lambda>y. k < f y) q = q"
      by (auto simp: filter_empty_conv)
    with False show ?thesis by simp
  qed
qed

lemma foldr_insort_append_one:
  fixes f :: "'a \<Rightarrow> int"
  shows "sorted (map f q) \<Longrightarrow>
     foldr (insort_key f) q [x] = filter (\<lambda>y. f y \<le> f x) q @ [x] @ filter (\<lambda>y. f x < f y) q"
proof (induction q)
  case Nil
  show ?case by simp
next
  case (Cons a q)
  then have s: "sorted (map f q)" and le: "\<forall>y \<in> set q. f a \<le> f y" by auto
  have ih: "foldr (insort_key f) q [x] = filter (\<lambda>y. f y \<le> f x) q @ [x] @ filter (\<lambda>y. f x < f y) q"
    by (rule Cons.IH [OF s])
  show ?case
  proof (cases "f a \<le> f x")
    case True
    have "\<forall>y \<in> set (foldr (insort_key f) q [x]). f a \<le> f y"
      unfolding ih using le True by auto
    then have "insort_key f a (foldr (insort_key f) q [x]) = a # foldr (insort_key f) q [x]"
      by (rule insort_is_Cons)
    with True ih show ?thesis by simp
  next
    case False
    with le have "\<forall>y \<in> set q. f x < f y" by auto
    then have e: "filter (\<lambda>y. f y \<le> f x) q = []" "filter (\<lambda>y. f x < f y) q = q"
      by (auto simp: filter_empty_conv)
    have "insort_key f a q = a # q"
      using le by (intro insort_is_Cons) auto
    with False ih e show ?thesis by simp
  qed
qed

lemma sort_key_append_one:
  fixes f :: "'a \<Rightarrow> int"
  shows "sorted (map f q) \<Longrightarrow>
     sort_key f (q @ [x]) = filter (\<lambda>y. f y \<le> f x) q @ [x] @ filter (\<lambda>y. f x < f y) q"
  by (simp add: sort_key_def foldr_insort_append_one)


subsection \<open>The order is kept\<close>

lemma sorted_wrt_remove1: "sorted_wrt P xs \<Longrightarrow> sorted_wrt P (remove1 x xs)"
proof (induction xs)
  case Nil
  show ?case by simp
next
  case (Cons a xs)
  then have h: "\<forall>y \<in> set xs. P a y" and t: "sorted_wrt P xs" by simp_all
  show ?case
  proof (cases "x = a")
    case True
    with t show ?thesis by simp
  next
    case False
    have "set (remove1 x xs) \<subseteq> set xs" by (rule set_remove1_subset)
    with h have "\<forall>y \<in> set (remove1 x xs). P a y" by blast
    moreover from t have "sorted_wrt P (remove1 x xs)" by (rule Cons.IH)
    ultimately show ?thesis using False by simp
  qed
qed

lemma ordered_by_remove1:
  assumes "ordered_by ps q"
  shows "ordered_by ps (remove1 x q)"
proof -
  let ?R = "\<lambda>a b. ps ! a > ps ! b \<or> (ps ! a = ps ! b \<and> a < b)"
  from assms have v: "\<forall>r \<in> set q. r < length ps" and s: "sorted_wrt ?R q"
    by (simp_all add: ordered_by_def)
  have "set (remove1 x q) \<subseteq> set q" by (rule set_remove1_subset)
  with v have v': "\<forall>r \<in> set (remove1 x q). r < length ps" by blast
  from s have s': "sorted_wrt ?R (remove1 x q)" by (rule sorted_wrt_remove1)
  from v' s' show ?thesis unfolding ordered_by_def by (rule conjI)
qed

lemma ordered_by_insert:
  assumes "ordered_by ps q"
  shows "ordered_by (ps @ [p])
           (filter (\<lambda>r. p \<le> ps ! r) q @ [length ps] @ filter (\<lambda>r. ps ! r < p) q)"
proof -
  let ?n = "length ps"
  let ?A = "filter (\<lambda>r. p \<le> ps ! r) q" and ?B = "filter (\<lambda>r. ps ! r < p) q"
  let ?R = "\<lambda>a b. ps ! a > ps ! b \<or> (ps ! a = ps ! b \<and> a < b)"
  let ?R' = "\<lambda>a b. (ps @ [p]) ! a > (ps @ [p]) ! b \<or> ((ps @ [p]) ! a = (ps @ [p]) ! b \<and> a < b)"
  from assms have v: "\<forall>r \<in> set q. r < ?n" and s: "sorted_wrt ?R q"
    by (simp_all add: ordered_by_def)
  have old: "(ps @ [p]) ! r = ps ! r" if "r \<in> set q" for r
    using v that by (simp add: nth_append)
  have new: "(ps @ [p]) ! ?n = p" by simp
  have sA: "sorted_wrt ?R ?A" and sB: "sorted_wrt ?R ?B"
    using s by (simp_all add: sorted_wrt_filter)
  have sA': "sorted_wrt ?R' ?A"
    using sA by (rule sorted_wrt_mono_rel [rotated]) (simp add: old)
  have sB': "sorted_wrt ?R' ?B"
    using sB by (rule sorted_wrt_mono_rel [rotated]) (simp add: old)
  have AB: "\<forall>a \<in> set ?A. \<forall>b \<in> set ?B. ?R' a b"
  proof (intro ballI)
    fix a b assume a: "a \<in> set ?A" and b: "b \<in> set ?B"
    then have "ps ! b < ps ! a" by auto
    moreover from a b have "a \<in> set q" "b \<in> set q" by auto
    ultimately show "?R' a b" by (simp add: old)
  qed
  have An: "\<forall>a \<in> set ?A. ?R' a ?n"
  proof
    fix a assume a: "a \<in> set ?A"
    then have "a \<in> set q" "p \<le> ps ! a" by auto
    with v have "a < ?n" "p \<le> (ps @ [p]) ! a" by (auto simp: nth_append)
    then show "?R' a ?n" unfolding new by auto
  qed
  have nB: "\<forall>b \<in> set ?B. ?R' ?n b"
  proof
    fix b assume b: "b \<in> set ?B"
    then have "b \<in> set q" "ps ! b < p" by auto
    with v have "(ps @ [p]) ! b < p" by (auto simp: nth_append)
    then show "?R' ?n b" unfolding new by auto
  qed
  have "sorted_wrt ?R' (?A @ [?n] @ ?B)"
    using sA' sB' AB An nB by (simp add: sorted_wrt_append)
  moreover have "\<forall>r \<in> set (?A @ [?n] @ ?B). r < length (ps @ [p])"
    using v by auto
  ultimately show ?thesis unfolding ordered_by_def by blast
qed

lemma ordered_by_sorted:
  assumes "ordered_by ps q"
  shows "sorted (map (\<lambda>r. - (ps ! r)) q)"
proof -
  from assms have "sorted_wrt (\<lambda>a b. ps ! a > ps ! b \<or> (ps ! a = ps ! b \<and> a < b)) q"
    by (simp add: ordered_by_def)
  then have "sorted_wrt (\<lambda>a b. - (ps ! a) \<le> - (ps ! b)) q"
    by (rule sorted_wrt_mono_rel [rotated]) auto
  then show ?thesis by (simp add: sorted_wrt_map)
qed

lemma add_to_recovery_queue_queued:
  "list_ex (\<lambda>r. rec_file_id (objects arm ! r) = fid) (recovery_queue arm) \<Longrightarrow>
     add_to_recovery_queue now fid fname strat prio arm = arm"
  by (simp add: add_to_recovery_queue_def)

lemma objects_add_to_recovery_queue:
  "\<not> list_ex (\<lambda>r. rec_file_id (objects arm ! r) = fid) (recovery_queue arm) \<Longrightarrow>
     objects (add_to_recovery_queue now fid fname strat prio arm)
       = objects arm @ [new_record now fid fname strat prio]"
  by (simp add: add_to_recovery_queue_def Let_def)

lemma queue_add_to_recovery_queue:
  "\<not> list_ex (\<lambda>r. rec_file_id (objects arm ! r) = fid) (recovery_queue arm) \<Longrightarrow>
     recovery_queue (add_to_recovery_queue now fid fname strat prio arm)
       = sort_key (\<lambda>r. - priority ((objects arm @ [new_record now fid fname strat prio]) ! r))
           (recovery_queue arm @ [length (objects arm)])"
  by (simp add: add_to_recovery_queue_def Let_def)

lemma priority_new_record: "priority (new_record now fid fname strat prio) = prio"
  by (simp add: new_record_def)

lemma add_to_recovery_queue_position:
  assumes o: "queue_ordered arm"
    and nq: "\<not> list_ex (\<lambda>r. rec_file_id (objects arm ! r) = fid) (recovery_queue arm)"
  shows "recovery_queue (add_to_recovery_queue now fid fname strat prio arm)
           = filter (\<lambda>r. prio \<le> priority (objects arm ! r)) (recovery_queue arm)
             @ [length (objects arm)]
             @ filter (\<lambda>r. priority (objects arm ! r) < prio) (recovery_queue arm)"
proof -
  let ?q = "recovery_queue arm" and ?os = "objects arm"
  let ?os' = "?os @ [new_record now fid fname strat prio]"
  let ?f = "\<lambda>r. - priority (?os' ! r)"
  from o have v: "\<forall>r \<in> set ?q. r < length ?os" by (simp add: queue_ordered_def)
  have old: "priority (?os' ! r) = priority (?os ! r)" if "r \<in> set ?q" for r
    using v that by (simp add: nth_append)
  have new: "priority (?os' ! length ?os) = prio"
    by (simp add: priority_new_record)
  have ps: "map priority ?os ! r = priority (?os ! r)" if "r \<in> set ?q" for r
    using v that by simp
  from o have "sorted (map (\<lambda>r. - (map priority ?os ! r)) ?q)"
    unfolding queue_ordered_iff by (rule ordered_by_sorted)
  also have "map (\<lambda>r. - (map priority ?os ! r)) ?q = map ?f ?q"
    by (rule map_cong [OF refl]) (simp add: ps old)
  finally have "sorted (map ?f ?q)" .
  then have "sort_key ?f (?q @ [length ?os])
        = filter (\<lambda>y. ?f y \<le> ?f (length ?os)) ?q @ [length ?os]
          @ filter (\<lambda>y. ?f (length ?os) < ?f y) ?q"
    by (rule sort_key_append_one)
  also have "filter (\<lambda>y. ?f y \<le> ?f (length ?os)) ?q = filter (\<lambda>r. prio \<le> priority (?os ! r)) ?q"
    unfolding new by (rule filter_cong [OF refl]) (simp add: old)
  also have "filter (\<lambda>y. ?f (length ?os) < ?f y) ?q = filter (\<lambda>r. priority (?os ! r) < prio) ?q"
    unfolding new by (rule filter_cong [OF refl]) (simp add: old)
  finally show ?thesis
    unfolding queue_add_to_recovery_queue [OF nq] .
qed

lemma queue_ordered_add_to_recovery_queue:
  assumes o: "queue_ordered arm"
  shows "queue_ordered (add_to_recovery_queue now fid fname strat prio arm)"
proof (cases "list_ex (\<lambda>r. rec_file_id (objects arm ! r) = fid) (recovery_queue arm)")
  case True
  with o show ?thesis by (simp add: add_to_recovery_queue_queued)
next
  case False
  let ?q = "recovery_queue arm" and ?os = "objects arm"
  let ?ps = "map priority ?os"
  from o have ob: "ordered_by ?ps ?q" by (simp add: queue_ordered_iff)
  then have v: "\<forall>r \<in> set ?q. r < length ?os" by (simp add: ordered_by_def)
  have A: "filter (\<lambda>r. prio \<le> priority (?os ! r)) ?q = filter (\<lambda>r. prio \<le> ?ps ! r) ?q"
    by (rule filter_cong [OF refl]) (use v in simp)
  have B: "filter (\<lambda>r. priority (?os ! r) < prio) ?q = filter (\<lambda>r. ?ps ! r < prio) ?q"
    by (rule filter_cong [OF refl]) (use v in simp)
  have q': "recovery_queue (add_to_recovery_queue now fid fname strat prio arm)
          = filter (\<lambda>r. prio \<le> ?ps ! r) ?q @ [length ?ps] @ filter (\<lambda>r. ?ps ! r < prio) ?q"
    using add_to_recovery_queue_position [OF o False, of now fname strat prio]
    unfolding A B by simp
  have p': "map priority (objects (add_to_recovery_queue now fid fname strat prio arm)) = ?ps @ [prio]"
    by (simp add: objects_add_to_recovery_queue [OF False] priority_new_record)
  show ?thesis
    unfolding queue_ordered_iff q' p' using ob by (rule ordered_by_insert)
qed

lemma queue_ordered_init: "queue_ordered recovery_manager_init"
  by (simp add: queue_ordered_def recovery_manager_init_def)

lemma queue_ordered_mark_recovery_successful:
  "queue_ordered arm \<Longrightarrow> queue_ordered (mark_recovery_successful now record t arm)"
  unfolding queue_ordered_iff priorities_mark_recovery_successful queue_mark_recovery_successful
  by (rule ordered_by_remove1)

lemma queue_ordered_mark_recovery_failed:
  "queue_ordered arm \<Longrightarrow> queue_ordered (mark_recovery_failed now record e arm)"
  unfolding queue_ordered_iff priorities_mark_recovery_failed queue_mark_recovery_failed
  by (rule ordered_by_remove1)

lemma queue_ordered_begin_attempt:
  "queue_ordered arm \<Longrightarrow> queue_ordered (begin_attempt now record arm)"
  unfolding queue_ordered_iff priorities_begin_attempt queue_begin_attempt .

lemma reachable_queue_ordered: "reachable arm \<Longrightarrow> queue_ordered arm"
proof (induction rule: reachable.induct)
  case init
  show ?case by (rule queue_ordered_init)
next
  case (enqueue arm now fid fname strat prio)
  then show ?case by (simp add: queue_ordered_add_to_recovery_queue)
next
  case (success arm now r t)
  then show ?case by (simp add: queue_ordered_mark_recovery_successful)
next
  case (failure arm now r e)
  then show ?case by (simp add: queue_ordered_mark_recovery_failed)
next
  case (attempt arm now r)
  then show ?case by (simp add: queue_ordered_begin_attempt)
qed

lemma queue_ordered_descending:
  assumes "queue_ordered arm"
  shows "sorted_wrt (\<lambda>x y. x \<ge> y) (map (\<lambda>r. priority (objects arm ! r)) (recovery_queue arm))"
proof -
  from assms have "sorted_wrt (\<lambda>a b. priority (objects arm ! a) > priority (objects arm ! b) \<or>
                        (priority (objects arm ! a) = priority (objects arm ! b) \<and> a < b))
       (recovery_queue arm)"
    by (simp add: queue_ordered_def)
  then have "sorted_wrt (\<lambda>a b. priority (objects arm ! a) \<ge> priority (objects arm ! b))
       (recovery_queue arm)"
    by (rule sorted_wrt_mono_rel [rotated]) auto
  then show ?thesis by (simp add: sorted_wrt_map)
qed

lemma reachable_attempt_recovery:
  assumes "reachable (fst s)"
  shows "reachable (fst (attempt_recovery net sha256 now elapsed r s))"
proof -
  let ?arm = "fst s"
  have b: "reachable (begin_attempt now r ?arm)"
    using assms by (rule reachable.attempt)
  have f0: "reachable (mark_recovery_failed now r e ?arm)" for e
    using assms by (rule reachable.failure)
  have f1: "reachable (mark_recovery_failed now r e (begin_attempt now r ?arm))" for e
    using b by (rule reachable.failure)
  have s1: "reachable (mark_recovery_successful now r elapsed (begin_attempt now r ?arm))"
    using b by (rule reachable.success)
  show ?thesis
    unfolding attempt_recovery_def Let_def
    using assms f0 f1 s1 by (simp split: option.splits prod.splits)
qed

lemma reachable_check_corrupted_files:
  "reachable arm \<Longrightarrow> reachable (check_corrupted_files now db fs arm)"
proof (induction fs arbitrary: arm)
  case Nil
  then show ?case by simp
next
  case (Cons f fs)
  from Cons.prems
  have "reachable (add_to_recovery_queue now (file_id (e_file f)) (filename (e_file f)) ''immediate'' 15 arm)"
    by (rule reachable.enqueue)
  then have "reachable (check_corrupted_files now db fs
       (add_to_recovery_queue now (file_id (e_file f)) (filename (e_file f)) ''immediate'' 15 arm))"
    by (rule Cons.IH)
  moreover from Cons.prems have "reachable (check_corrupted_files now db fs arm)"
    by (rule Cons.IH)
  ultimately show ?case by (simp add: Let_def)
qed

lemma reachable_check_corrupted_replicas:
  "reachable arm \<Longrightarrow> reachable (check_corrupted_replicas now db arm)"
  by (simp add: check_corrupted_replicas_def reachable_check_corrupted_files split: option.splits)

text \<open>Three files put on the empty queue with the priorities 10, 15 and 10.\<close>

definition rq_example :: recovery_manager where
  "rq_example =
     add_to_recovery_queue 2 ''c'' ''c.bin'' ''priority'' 10
       (add_to_recovery_queue 1 ''b'' ''b.bin'' ''immediate'' 15
          (add_to_recovery_queue 0 ''a'' ''a.bin'' ''priority'' 10 recovery_manager_init))"

lemma rq_example_eq:
  "objects rq_example = [new_record 0 ''a'' ''a.bin'' ''priority'' 10,
                         new_record 1 ''b'' ''b.bin'' ''immediate'' 15,
                         new_record 2 ''c'' ''c.bin'' ''priority'' 10]"
  "recovery_queue rq_example = [1, 0, 2]"
  by (simp_all add: rq_example_def add_to_recovery_queue_def recovery_manager_init_def
        new_record_def Let_def)

lemma rq_example_reachable: "reachable rq_example"
  unfolding rq_example_def by (intro reachable.enqueue reachable.init)

text \<open>
  C9: in every state that the queue operations make of the empty queue, the queue is in
  descending order of priority, and records of equal priority are in the order of their
  insertion (references count the records in that order). The operations keep the order
  as follows. An enqueue of a file that is not queued puts the new record behind the
  queued records of the same or a higher priority and before those of a lower one, the
  others staying as they were; an enqueue of a queued file changes nothing. The removal
  on success and the removal on failure take the one record out of the queue. So the
  order holds again after an enqueue, after either removal, and after a whole attempt.
\<close>

theorem recovery_queue_sorted:
  assumes "reachable arm"
  shows "queue_ordered arm
    \<and> sorted_wrt (\<lambda>x y. x \<ge> y) (map (\<lambda>r. priority (objects arm ! r)) (recovery_queue arm))
    \<and> recovery_queue (add_to_recovery_queue now fid fname strat prio arm)
        = (if list_ex (\<lambda>r. rec_file_id (objects arm ! r) = fid) (recovery_queue arm)
           then recovery_queue arm
           else filter (\<lambda>r. prio \<le> priority (objects arm ! r)) (recovery_queue arm)
                @ [length (objects arm)]
                @ filter (\<lambda>r. priority (objects arm ! r) < prio) (recovery_queue arm))
    \<and> map priority (objects (add_to_recovery_queue now fid fname strat prio arm))
        = (if list_ex (\<lambda>r. rec_file_id (objects arm ! r) = fid) (recovery_queue arm)
           then map priority (objects arm)
           else map priority (objects arm) @ [prio])
    \<and> recovery_queue (mark_recovery_successful now r t arm) = remove1 r (recovery_queue arm)
    \<and> recovery_queue (mark_recovery_failed now r e arm) = remove1 r (recovery_queue arm)
    \<and> map priority (objects (mark_recovery_successful now r t arm)) = map priority (objects arm)
    \<and> map priority (objects (mark_recovery_failed now r e arm)) = map priority (objects arm)
    \<and> queue_ordered (add_to_recovery_queue now fid fname strat prio arm)
    \<and> queue_ordered (mark_recovery_successful now r t arm)
    \<and> queue_ordered (mark_recovery_failed now r e arm)
    \<and> queue_ordered (fst (attempt_recovery net sha256 now elapsed r (arm, db)))
    \<and> queue_ordered (check_corrupted_replicas now db arm)"
proof -
  from assms have o: "queue_ordered arm" by (rule reachable_queue_ordered)
  have d: "sorted_wrt (\<lambda>x y. x \<ge> y) (map (\<lambda>r. priority (objects arm ! r)) (recovery_queue arm))"
    using o by (rule queue_ordered_descending)
  have q: "recovery_queue (add_to_recovery_queue now fid fname strat prio arm)
        = (if list_ex (\<lambda>r. rec_file_id (objects arm ! r) = fid) (recovery_queue arm)
           then recovery_queue arm
           else filter (\<lambda>r. prio \<le> priority (objects arm ! r)) (recovery_queue arm)
                @ [length (objects arm)]
                @ filter (\<lambda>r. priority (objects arm ! r) < prio) (recovery_queue arm))"
  proof (cases "list_ex (\<lambda>r. rec_file_id (objects arm ! r) = fid) (recovery_queue arm)")
    case True
    then show ?thesis by (simp add: add_to_recovery_queue_queued)
  next
    case False
    from add_to_recovery_queue_position [OF o False] False show ?thesis by simp
  qed
  have p: "map priority (objects (add_to_recovery_queue now fid fname strat prio arm))
        = (if list_ex (\<lambda>r. rec_file_id (objects arm ! r) = fid) (recovery_queue arm)
           then map priority (objects arm)
           else map priority (objects arm) @ [prio])"
  proof (cases "list_ex (\<lambda>r. rec_file_id (objects arm ! r) = fid) (recovery_queue arm)")
    case True
    then show ?thesis by (simp add: add_to_recovery_queue_queued)
  next
    case False
    then show ?thesis
      by (simp add: objects_add_to_recovery_queue [OF False] priority_new_record)
  qed
  have a: "queue_ordered (add_to_recovery_queue now fid fname strat prio arm)"
    using o by (rule queue_ordered_add_to_recovery_queue)
  have s: "queue_ordered (mark_recovery_successful now r t arm)"
    using o by (rule queue_ordered_mark_recovery_successful)
  have f: "queue_ordered (mark_recovery_failed now r e arm)"
    using o by (rule queue_ordered_mark_recovery_failed)
  from assms have "reachable (fst (arm, db))" by simp
  then have "reachable (fst (attempt_recovery net sha256 now elapsed r (arm, db)))"
    by (rule reachable_attempt_recovery)
  then have t: "queue_ordered (fst (attempt_recovery net sha256 now elapsed r (arm, db)))"
    by (rule reachable_queue_ordered)
  from assms have "reachable (check_corrupted_replicas now db arm)"
    by (rule reachable_check_corrupted_replicas)
  then have c: "queue_ordered (check_corrupted_replicas now db arm)"
    by (rule reachable_queue_ordered)
  note qs = queue_mark_recovery_successful [of now r t arm]
  note qf = queue_mark_recovery_failed [of now r e arm]
  note ps = priorities_mark_recovery_successful [of now r t arm]
  note pf = priorities_mark_recovery_failed [of now r e arm]
  from o d q p qs qf ps pf a s f t c show ?thesis by (intro conjI)
qed

theorem recovery_queue_sorted_witness:
  "reachable rq_example
   \<and> recovery_queue rq_example = [1, 0, 2]
   \<and> map (\<lambda>r. priority (objects rq_example ! r)) (recovery_queue rq_example) = [15, 10, 10]
   \<and> sorted_wrt (\<lambda>x y. x \<ge> y) (map (\<lambda>r. priority (objects rq_example ! r)) (recovery_queue rq_example))
   \<and> recovery_queue (add_to_recovery_queue 3 ''d'' ''d.bin'' ''immediate'' 15 rq_example) = [1, 3, 0, 2]
   \<and> recovery_queue (add_to_recovery_queue 3 ''a'' ''a.bin'' ''immediate'' 15 rq_example) = [1, 0, 2]
   \<and> recovery_queue (mark_recovery_successful 3 0 0 rq_example) = [1, 2]
   \<and> recovery_queue (mark_recovery_failed 3 1 ''Recovery operation failed'' rq_example) = [0, 2]"
proof -
  note main = recovery_queue_sorted [OF rq_example_reachable]
  have m: "map (\<lambda>r. priority (objects rq_example ! r)) (recovery_queue rq_example) = [15, 10, 10]"
    by (simp add: rq_example_eq new_record_def)
  have d: "sorted_wrt (\<lambda>x y. x \<ge> y)
             (map (\<lambda>r. priority (objects rq_example ! r)) (recovery_queue rq_example))"
    using main by (rule conjunct1 [OF conjunct2])
  have "recovery_queue (add_to_recovery_queue 3 ''d'' ''d.bin'' ''immediate'' 15 rq_example)
        = (if list_ex (\<lambda>r. rec_file_id (objects rq_example ! r) = ''d'') (recovery_queue rq_example)
           then recovery_queue rq_example
           else filter (\<lambda>r. 15 \<le> priority (objects rq_example ! r)) (recovery_queue rq_example)
                @ [length (objects rq_example)]
                @ filter (\<lambda>r. priority (objects rq_example ! r) < 15) (recovery_queue rq_example))"
    using main [of 3 "''d''" "''d.bin''" "''immediate''" 15] by (rule conjunct1 [OF conjunct2 [OF conjunct2]])
  then have e1: "recovery_queue (add_to_recovery_queue 3 ''d'' ''d.bin'' ''immediate'' 15 rq_example)
                   = [1, 3, 0, 2]"
    by (simp add: rq_example_eq new_record_def)
  have "recovery_queue (add_to_recovery_queue 3 ''a'' ''a.bin'' ''immediate'' 15 rq_example)
        = (if list_ex (\<lambda>r. rec_file_id (objects rq_example ! r) = ''a'') (recovery_queue rq_example)
           then recovery_queue rq_example
           else filter (\<lambda>r. 15 \<le> priority (objects rq_example ! r)) (recovery_queue rq_example)
                @ [length (objects rq_example)]
                @ filter (\<lambda>r. priority (objects rq_example ! r) < 15) (recovery_queue rq_example))"
    using main [of 3 "''a''" "''a.bin''" "''immediate''" 15] by (rule conjunct1 [OF conjunct2 [OF conjunct2]])
  then have e2: "recovery_queue (add_to_recovery_queue 3 ''a'' ''a.bin'' ''immediate'' 15 rq_example)
                   = [1, 0, 2]"
    by (simp add: rq_example_eq new_record_def)
  have "recovery_queue (mark_recovery_successful 3 0 0 rq_example) = remove1 0 (recovery_queue rq_example)"
    by (rule queue_mark_recovery_successful)
  then have r1: "recovery_queue (mark_recovery_successful 3 0 0 rq_example) = [1, 2]"
    by (simp add: rq_example_eq)
  have "recovery_queue (mark_recovery_failed 3 1 ''Recovery operation failed'' rq_example)
          = remove1 1 (recovery_queue rq_example)"
    by (rule queue_mark_recovery_failed)
  then have r2: "recovery_queue (mark_recovery_failed 3 1 ''Recovery operation failed'' rq_example) = [0, 2]"
    by (simp add: rq_example_eq)
  from rq_example_reachable rq_example_eq(2) m d e1 e2 r1 r2 show ?thesis by (intro conjI)
qed

section \<open>Guards of an attempt\<close>

















subsection \<open>An attempt that runs is counted\<close>


























end
